theory Spec2Isabelle
  imports Complex_Main "HOL-Library.Word" "HOL-Library.Sublist"
begin

section \<open>Conventions of the embedding\<close>

text \<open>
  The simulator of \<^verbatim>\<open>testbeam_analysis/tools/simulate_data.py\<close> is embedded function by
  function. Floating-point numbers are idealised as real numbers: rounding is outside the
  model, and the embedding speaks for the code wherever the code divides by a non-zero number
  and takes the root of a non-negative one. The one division by zero that the model follows
  is the division by a pixel pitch of 0 in the discretization, where numpy gives infinities
  and NaN. The operator \<^verbatim>\<open>/\<close> is read as true division. Pixel indices, which the code
  keeps as integer-valued floats, are integers.

  An index that does not exist, into a list or a tuple of the settings or into a list of
  results, is the error \<open>IndexError\<close>. The functions of the cluster search are compiled by
  numba, which checks no index: there a read beyond the data of an array returns what the
  memory holds at that place, and an array is a view of a memory. A write beyond the buffer
  of the records has no defined outcome; it is the error \<open>IndexError\<close>, which the same write
  raises in Python. \<open>ValueError\<close> is the exception of \<^verbatim>\<open>_create_tracks\<close>, of \<^verbatim>\<open>range\<close> and of
  numpy. \<open>NonFinite\<close> is no exception of Python: it marks a run in which pixel indices that
  are not finite reach the compiled cluster search, where their conversion to integers has
  no defined result.
\<close>

datatype error = IndexError | ValueError | NonFinite

section \<open>The random generator\<close>

text \<open>
  The generator of \<^verbatim>\<open>numpy.random\<close> is the one piece of global state. It is a stream of
  variates with a cursor, and it keeps the list of the requests made so far, each with the
  parameters of the call. A normal draw is \<open>loc + scale * v\<close> for a variate \<open>v\<close>, so a
  scale of 0 gives the constant \<open>loc\<close>; a negative scale is refused with \<open>ValueError\<close>
  before anything is drawn, whatever the number of values asked for. Which distribution the
  variates follow is not part of the model.
\<close>

datatype draw = Normal real real nat | Uniform nat | Shuffle nat | Choice nat

record rng =
  variates :: "nat \<Rightarrow> real"
  cursor :: nat
  draws :: "draw list"

definition consume :: "nat \<Rightarrow> draw \<Rightarrow> rng \<Rightarrow> real list \<times> rng" where
  "consume n d g =
     (map (\<lambda>i. variates g (cursor g + i)) [0..<n],
      g\<lparr>cursor := cursor g + n, draws := draws g @ [d]\<rparr>)"

definition random_normal :: "real \<Rightarrow> real \<Rightarrow> nat \<Rightarrow> rng \<Rightarrow> (error + real list) \<times> rng" where
  "random_normal loc scale n g =
     (if scale < 0 then (Inl ValueError, g)
      else (Inr (map (\<lambda>v. loc + scale * v) (fst (consume n (Normal loc scale n) g))),
            snd (consume n (Normal loc scale n) g)))"

definition random_random :: "nat \<Rightarrow> rng \<Rightarrow> real list \<times> rng" where
  "random_random n g = consume n (Uniform n) g"

text \<open>
  \<^verbatim>\<open>np.random.choice(a, n, p)\<close> returns entries of \<open>a\<close>. Which entry a variate selects
  depends on the probabilities, which come from the library pyLandau; the model selects
  by the variate alone.
\<close>

definition random_choice :: "real list \<Rightarrow> nat \<Rightarrow> rng \<Rightarrow> real list \<times> rng" where
  "random_choice a n g =
     (map (\<lambda>v. a ! (nat \<lfloor>v * real (length a)\<rfloor> mod length a)) (fst (consume n (Choice n) g)),
      snd (consume n (Choice n) g))"

text \<open>\<^verbatim>\<open>np.random.shuffle\<close>: exchanges from the last position down to position 1.\<close>

fun shuffle_steps :: "nat list \<Rightarrow> real list \<Rightarrow> 'a list \<Rightarrow> 'a list" where
  "shuffle_steps (i # rest) (v # vs) xs =
     (let j = nat \<lfloor>v * real (i + 1)\<rfloor> mod (i + 1)
      in shuffle_steps rest vs (xs[i := xs ! j, j := xs ! i]))"
| "shuffle_steps _ _ xs = xs"

definition random_shuffle :: "'a list \<Rightarrow> rng \<Rightarrow> 'a list \<times> rng" where
  "random_shuffle xs g =
     (shuffle_steps (rev [1..<length xs]) (fst (consume (length xs - 1) (Shuffle (length xs)) g)) xs,
      snd (consume (length xs - 1) (Shuffle (length xs)) g))"

section \<open>Array operations of numpy and Python\<close>

text \<open>\<^verbatim>\<open>xs[i]\<close> for an index that is not negative.\<close>

definition item :: "'a list \<Rightarrow> nat \<Rightarrow> error + 'a" where
  "item xs i = (if i < length xs then Inr (xs ! i) else Inl IndexError)"

text \<open>\<^verbatim>\<open>np.around\<close>: to the nearest integer, a tie to the even one.\<close>

definition around :: "real \<Rightarrow> int" where
  "around x =
     (let f = \<lfloor>x\<rfloor>; d = x - of_int f in
      if d < 1 / 2 then f else if d > 1 / 2 then f + 1 else if even f then f else f + 1)"

text \<open>\<^verbatim>\<open>int(x)\<close> and \<^verbatim>\<open>astype(int)\<close>: towards zero.\<close>

definition astype_int :: "real \<Rightarrow> int" where
  "astype_int x = (if 0 \<le> x then \<lfloor>x\<rfloor> else \<lceil>x\<rceil>)"

text \<open>\<^verbatim>\<open>xs[:k]\<close>; a negative \<open>k\<close> counts from the end.\<close>

definition slice_to :: "int \<Rightarrow> 'a list \<Rightarrow> 'a list" where
  "slice_to k xs = (if 0 \<le> k then take (nat k) xs else take (length xs - nat (- k)) xs)"

text \<open>\<^verbatim>\<open>xs[selection]\<close> for a boolean array \<open>selection\<close>.\<close>

definition masked :: "bool list \<Rightarrow> 'a list \<Rightarrow> 'a list" where
  "masked selection xs = map snd (filter fst (zip selection xs))"

text \<open>\<^verbatim>\<open>np.repeat(xs, counts)\<close>.\<close>

definition repeat :: "'a list \<Rightarrow> nat list \<Rightarrow> 'a list" where
  "repeat xs counts = concat (map (\<lambda>(x, k). replicate k x) (zip xs counts))"

text \<open>\<^verbatim>\<open>len(range(0, stop, step))\<close> for a step other than 0.\<close>

definition range_len :: "int \<Rightarrow> int \<Rightarrow> nat" where
  "range_len stop step =
     (if 0 < step then nat ((stop + step - 1) div step) else nat ((stop + step + 1) div step))"

section \<open>Arrays in the compiled functions\<close>

text \<open>
  An array of two dimensions as the compiled functions see it: a memory, counted in
  elements from the first element of the array, and the two strides. No shape is kept,
  since no index is compared with it. \<open>rows_array rows heap\<close> is the array numpy allocates
  for the rows \<open>rows\<close> of two entries each, row after row; \<open>heap\<close> is what a read behind
  the data of the array finds, which nothing in the program determines. \<^verbatim>\<open>a.T\<close> exchanges
  the strides and leaves the memory as it is, and \<^verbatim>\<open>a[i]\<close> is the view that starts \<open>i\<close>
  times the first stride into the memory, with the second stride between its entries 0
  and 1. (For an array of one row the transposed array is contiguous in both orders, and
  compiled code that takes it for contiguous by rows finds the second entry of the row
  where this model reads \<open>heap 0\<close>: that is one of the values of \<open>heap\<close>.)
\<close>

record array2d =
  memory :: "nat \<Rightarrow> real"
  stride0 :: nat
  stride1 :: nat

definition rows_array :: "(real \<times> real) list \<Rightarrow> (nat \<Rightarrow> real) \<Rightarrow> array2d" where
  "rows_array rows heap =
     \<lparr>memory = (\<lambda>k. if k < 2 * length rows
                     then (if even k then fst (rows ! (k div 2)) else snd (rows ! (k div 2)))
                     else heap (k - 2 * length rows)),
      stride0 = 2, stride1 = 1\<rparr>"

definition transposed :: "array2d \<Rightarrow> array2d" where
  "transposed a = a\<lparr>stride0 := stride1 a, stride1 := stride0 a\<rparr>"

definition row_view :: "array2d \<Rightarrow> nat \<Rightarrow> real \<times> real" where
  "row_view a i = (memory a (i * stride0 a), memory a (i * stride0 a + stride1 a))"

section \<open>The error function of the standard library\<close>

text \<open>
  \<^verbatim>\<open>math.erf\<close> is not code of the repository. It is the error function, here given by
  its Maclaurin series \<open>2 / sqrt pi * (\<Sum>n. (-1)^n * x^(2n+1) / (n! * (2n+1)))\<close>.
\<close>

definition erf_coeff :: "real \<Rightarrow> nat \<Rightarrow> real" where
  "erf_coeff x n = x ^ (2 * n + 1) / (fact n * real (2 * n + 1))"

definition erf_series :: "real \<Rightarrow> real" where
  "erf_series x = (\<Sum>n. (- 1) ^ n * erf_coeff x n)"

definition erf :: "real \<Rightarrow> real" where
  "erf x = 2 / sqrt pi * erf_series x"

section \<open>Charge fraction of one pixel\<close>

definition boltzman_constant :: real where
  "boltzman_constant = 86173324 / 10 ^ 12"

definition calc_sigma_diffusion :: "real \<Rightarrow> real \<Rightarrow> real \<Rightarrow> real" where
  "calc_sigma_diffusion distance temperature bias =
     distance * sqrt (2 * temperature / bias * boltzman_constant)"

definition bivariante_normal_cdf_limits ::
  "real \<Rightarrow> real \<Rightarrow> real \<Rightarrow> real \<Rightarrow> real \<Rightarrow> real \<Rightarrow> real \<Rightarrow> real" where
  "bivariante_normal_cdf_limits a1 a2 b1 b2 mu1 mu2 sigma =
     1 / 4 * (erf ((a2 - mu1) / sqrt (2 * sigma\<^sup>2)) - erf ((a1 - mu1) / sqrt (2 * sigma\<^sup>2)))
           * (erf ((b2 - mu2) / sqrt (2 * sigma\<^sup>2)) - erf ((b1 - mu2) / sqrt (2 * sigma\<^sup>2)))"

text \<open>
  \<open>position\<close> is the view of one row of the array of the relative positions: the pair of
  its entries 0 and 1, which the code reads only on the path with a diffusion sigma other
  than 0.
\<close>

definition calc_charge_fraction ::
  "real \<times> real \<Rightarrow> real \<Rightarrow> int \<Rightarrow> int \<Rightarrow> real \<Rightarrow> real \<Rightarrow> real \<Rightarrow> real \<Rightarrow> real \<Rightarrow> real" where
  "calc_charge_fraction position position_z pixel_index_x pixel_index_y pixel_size_x pixel_size_y
       temperature bias digitization_sigma_cc =
     (let sigma = calc_sigma_diffusion position_z temperature bias * digitization_sigma_cc in
      if sigma = 0 then 1
      else bivariante_normal_cdf_limits
             (pixel_size_x * (real_of_int pixel_index_x - 1 / 2))
             (pixel_size_x * (real_of_int pixel_index_x + 1 / 2))
             (pixel_size_y * (real_of_int pixel_index_y - 1 / 2))
             (pixel_size_y * (real_of_int pixel_index_y + 1 / 2))
             (fst position) (snd position) sigma)"

section \<open>Cluster search for one seed hit\<close>

text \<open>The read-only arguments of \<^verbatim>\<open>_create_charge_sharing_hits\<close>.\<close>

record sharing_args =
  relative_position :: "real \<times> real"
  column :: int
  row :: int
  charge :: real
  max_column :: int
  max_row :: int
  thickness :: real
  pixel_size_x :: real
  pixel_size_y :: real
  temperature :: real
  bias :: real
  digitization_sigma_cc :: real

text \<open>The variables the loops update; \<open>result_hits\<close> is the caller's buffer.\<close>

record scan_state =
  total_fraction :: real
  result_hits :: "(int \<times> int \<times> real) list"
  index :: nat
  n_hits :: nat

definition min_fraction :: real where
  "min_fraction = 1 / 1000"

definition pixel_fraction :: "sharing_args \<Rightarrow> int \<Rightarrow> int \<Rightarrow> real" where
  "pixel_fraction A actual_column actual_row =
     calc_charge_fraction (relative_position A) (thickness A / 2)
       (actual_column - column A) (actual_row - row A)
       (pixel_size_x A) (pixel_size_y A) (temperature A) (bias A) (digitization_sigma_cc A)"

text \<open>
  The body shared by the four row loops; the list is the \<^verbatim>\<open>range\<close> still to visit.
  A write at an index beyond the buffer is the error.
\<close>

fun row_loop :: "sharing_args \<Rightarrow> int \<Rightarrow> int list \<Rightarrow> scan_state \<Rightarrow> error + scan_state" where
  "row_loop A actual_column [] s = Inr s"
| "row_loop A actual_column (actual_row # rows) s =
     (let fraction = pixel_fraction A actual_column actual_row;
          s1 = s\<lparr>total_fraction := total_fraction s + fraction\<rparr> in
      if fraction < min_fraction then Inr s1
      else if length (result_hits s1) \<le> index s1 then Inl IndexError
      else
        let s2 = s1\<lparr>result_hits :=
                      (result_hits s1)[index s1 := (actual_column, actual_row, fraction * charge A)],
                    index := index s1 + 1,
                    n_hits := n_hits s1 + 1\<rparr> in
        if total_fraction s2 \<ge> 1 - min_fraction then Inr s2
        else row_loop A actual_column rows s2)"

text \<open>The body shared by the two column loops.\<close>

fun column_loop :: "sharing_args \<Rightarrow> int list \<Rightarrow> scan_state \<Rightarrow> error + scan_state" where
  "column_loop A [] s = Inr s"
| "column_loop A (actual_column # cols) s =
     (if total_fraction s \<ge> 1 - min_fraction
         \<or> pixel_fraction A actual_column (row A) < min_fraction then Inr s
      else case row_loop A actual_column [row A..max_row A - 1] s of
        Inl e \<Rightarrow> Inl e
      | Inr s1 \<Rightarrow>
          (case row_loop A actual_column (rev [1..row A - 1]) s1 of
             Inl e \<Rightarrow> Inl e
           | Inr s2 \<Rightarrow> column_loop A cols s2))"

definition create_charge_sharing_hits ::
  "sharing_args \<Rightarrow> (int \<times> int \<times> real) list \<Rightarrow> nat
     \<Rightarrow> error + ((int \<times> int \<times> real) list \<times> nat \<times> nat)" where
  "create_charge_sharing_hits A buffer start =
     (case column_loop A [column A..max_column A - 1]
             \<lparr>total_fraction = 0, result_hits = buffer, index = start, n_hits = 0\<rparr> of
        Inl e \<Rightarrow> Inl e
      | Inr s1 \<Rightarrow>
          (case column_loop A (rev [1..column A - 1]) s1 of
             Inl e \<Rightarrow> Inl e
           | Inr s2 \<Rightarrow> Inr (result_hits s2, index s2, n_hits s2)))"

text \<open>
  \<^verbatim>\<open>_add_charge_sharing_hits\<close>: the loop over the seed hits. The buffer has five rows
  per seed hit; \<open>relative_position\<close> is the array the caller passes, of which the loop takes
  the view \<^verbatim>\<open>relative_position[actual_index]\<close> without a check of the index; the seed
  hit itself is a row of \<open>hits_digits\<close>, whose length bounds the loop; the correction factor
  is the constant 1. The buffer holds 32-bit floats and the counts are 16-bit integers in
  the code; the model keeps the exact numbers.
\<close>

fun seed_loop ::
  "array2d \<Rightarrow> (int \<times> int \<times> real) list \<Rightarrow> int \<Rightarrow> int \<Rightarrow> real \<Rightarrow> real \<Rightarrow> real
     \<Rightarrow> real \<Rightarrow> real \<Rightarrow> nat list \<Rightarrow> (int \<times> int \<times> real) list \<times> nat \<times> nat list
     \<Rightarrow> error + ((int \<times> int \<times> real) list \<times> nat \<times> nat list)" where
  "seed_loop rel hits_digits mc mr th px py temp b [] st = Inr st"
| "seed_loop rel hits_digits mc mr th px py temp b (actual_index # rest)
       (buffer, result_index, n_hits_per_seed_hit) =
     (let actual_hit_digit = hits_digits ! actual_index in
      case create_charge_sharing_hits
              \<lparr>relative_position = row_view rel actual_index,
               column = fst actual_hit_digit,
               row = fst (snd actual_hit_digit),
               charge = snd (snd actual_hit_digit),
               max_column = mc, max_row = mr, thickness = th,
               pixel_size_x = px, pixel_size_y = py, temperature = temp, bias = b,
               digitization_sigma_cc = 1\<rparr>
              buffer result_index of
        Inl e \<Rightarrow> Inl e
      | Inr (buffer1, result_index1, n) \<Rightarrow>
          seed_loop rel hits_digits mc mr th px py temp b rest
            (buffer1, result_index1, n_hits_per_seed_hit[actual_index := n]))"

definition add_charge_sharing_hits ::
  "array2d \<Rightarrow> (int \<times> int \<times> real) list \<Rightarrow> int \<Rightarrow> int \<Rightarrow> real \<Rightarrow> real \<Rightarrow> real
     \<Rightarrow> real \<Rightarrow> real \<Rightarrow> error + ((int \<times> int \<times> real) list \<times> nat list)" where
  "add_charge_sharing_hits rel hits_digits mc mr th px py temp b =
     (case seed_loop rel hits_digits mc mr th px py temp b [0..<length hits_digits]
             (replicate (5 * length hits_digits) (0, 0, 0), 0,
              replicate (length hits_digits) 0) of
        Inl e \<Rightarrow> Inl e
      | Inr (buffer, result_index, n_hits_per_seed_hit) \<Rightarrow>
          Inr (take result_index buffer, n_hits_per_seed_hit))"

section \<open>Settings\<close>

text \<open>The attributes of \<^verbatim>\<open>SimulateData\<close> that \<^verbatim>\<open>set_std_settings\<close> sets.\<close>

record settings =
  n_duts :: nat
  z_positions :: "real list"
  offsets :: "(real \<times> real) list"
  temperature :: real
  beam_position :: "real \<times> real"
  beam_position_sigma :: "real \<times> real"
  beam_angle :: real
  beam_angle_sigma :: real
  tracks_per_event :: real
  tracks_per_event_sigma :: real
  dut_bias :: "real list"
  dut_thickness :: "real list"
  dut_threshold :: "real list"
  dut_noise :: "real list"
  dut_pixel_size :: "(real \<times> real) list"
  dut_n_pixel :: "(int \<times> int) list"
  dut_efficiencies :: "real list"
  digitization_charge_sharing :: bool
  digitization_sigma_cc :: real

definition std_settings :: settings where
  "std_settings =
     \<lparr>n_duts = 6,
      z_positions = map (\<lambda>i. real i * 10000) [0..<6],
      offsets = replicate 6 (- 2500, - 2500),
      temperature = 300,
      beam_position = (0, 0),
      beam_position_sigma = (2000, 2000),
      beam_angle = 0,
      beam_angle_sigma = 1,
      tracks_per_event = 1,
      tracks_per_event_sigma = 1,
      dut_bias = replicate 6 50,
      dut_thickness = replicate 6 100,
      dut_threshold = replicate 6 0,
      dut_noise = replicate 6 50,
      dut_pixel_size = replicate 6 (50, 50),
      dut_n_pixel = replicate 6 (1000, 1000),
      dut_efficiencies = replicate 6 1,
      digitization_charge_sharing = True,
      digitization_sigma_cc = 135 / 100\<rparr>"

section \<open>Tracks and their intersections with the planes\<close>

text \<open>\<^verbatim>\<open>theta[mask] = values\<close>: the next value goes to the next entry the mask selects.\<close>

fun assign_where :: "(real \<Rightarrow> bool) \<Rightarrow> real list \<Rightarrow> real list \<Rightarrow> real list" where
  "assign_where P [] vs = []"
| "assign_where P (t # ts) vs =
     (if P t then (case vs of [] \<Rightarrow> t # assign_where P ts [] | v # rest \<Rightarrow> v # assign_where P ts rest)
      else t # assign_where P ts vs)"

text \<open>
  One round of the loop that redraws the polar angles outside \<open>[0, pi]\<close>: both draws are
  made in every round, also for no angle at all.
\<close>

definition resample_round :: "settings \<Rightarrow> real list \<Rightarrow> rng \<Rightarrow> (error + real list) \<times> rng" where
  "resample_round S theta g =
     (case random_normal (beam_angle S) (beam_angle_sigma S)
             (length (filter (\<lambda>t. t > pi) theta)) g of
        (Inl e, g1) \<Rightarrow> (Inl e, g1)
      | (Inr high, g1) \<Rightarrow>
          let theta1 = assign_where (\<lambda>t. t > pi) theta high in
          (case random_normal (beam_angle S) (beam_angle_sigma S)
                  (length (filter (\<lambda>t. t < 0) theta1)) g1 of
             (Inl e, g2) \<Rightarrow> (Inl e, g2)
           | (Inr low, g2) \<Rightarrow> (Inr (assign_where (\<lambda>t. t < 0) theta1 low), g2)))"

text \<open>The loop has no bound on its rounds: not returning is the value \<open>None\<close>.\<close>

partial_function (option) resample_theta ::
  "settings \<Rightarrow> real list \<times> rng \<Rightarrow> ((error + real list) \<times> rng) option" where
  "resample_theta S tg =
     (if (\<exists>t \<in> set (fst tg). t > pi) \<or> (\<exists>t \<in> set (fst tg). t < 0)
      then (case resample_round S (fst tg) (snd tg) of
              (Inl e, g1) \<Rightarrow> Some (Inl e, g1)
            | (Inr theta1, g1) \<Rightarrow> resample_theta S (theta1, g1))
      else Some (Inr (fst tg), snd tg))"

text \<open>
  \<^verbatim>\<open>_create_tracks\<close> returns the positions in x and in y and the angles phi and theta. The
  beam angle is in mrad.
\<close>

definition create_tracks ::
  "settings \<Rightarrow> nat \<Rightarrow> rng
     \<Rightarrow> ((error + (real list \<times> real list \<times> real list \<times> real list)) \<times> rng) option" where
  "create_tracks S n_tracks g =
     (if beam_angle S / 1000 > pi \<or> beam_angle S / 1000 < 0 then Some (Inl ValueError, g)
      else
        case (if fst (beam_position_sigma S) \<noteq> 0
              then random_normal (fst (beam_position S)) (fst (beam_position_sigma S)) n_tracks g
              else (Inr (replicate n_tracks (fst (beam_position S))), g)) of
          (Inl e, g1) \<Rightarrow> Some (Inl e, g1)
        | (Inr track_positions_x, g1) \<Rightarrow>
        case (if snd (beam_position_sigma S) \<noteq> 0
              then random_normal (snd (beam_position S)) (fst (beam_position_sigma S)) n_tracks g1
              else (Inr (replicate n_tracks (snd (beam_position S))), g1)) of
          (Inl e, g2) \<Rightarrow> Some (Inl e, g2)
        | (Inr track_positions_y, g2) \<Rightarrow>
        case (if beam_angle_sigma S \<noteq> 0
              then (case random_normal (beam_angle S / 1000) (beam_angle_sigma S / 1000)
                           n_tracks g2 of
                      (Inl e, g3) \<Rightarrow> (Inl e, g3)
                    | (Inr drawn, g3) \<Rightarrow> (Inr (map abs drawn), g3))
              else (Inr (replicate n_tracks (beam_angle S / 1000)), g2)) of
          (Inl e, g3) \<Rightarrow> Some (Inl e, g3)
        | (Inr theta, g3) \<Rightarrow>
        case resample_theta S (theta, g3) of
          None \<Rightarrow> None
        | Some (Inl e, g4) \<Rightarrow> Some (Inl e, g4)
        | Some (Inr track_angles_theta, g4) \<Rightarrow>
            Some (Inr (track_positions_x, track_positions_y,
                       map (\<lambda>u. u * 2 * pi) (fst (random_random n_tracks g4)),
                       track_angles_theta),
                  snd (random_random n_tracks g4)))"

definition create_hits_from_tracks ::
  "settings \<Rightarrow> real list \<Rightarrow> real list \<Rightarrow> real list \<Rightarrow> real list \<Rightarrow> (real \<times> real) list list" where
  "create_hits_from_tracks S track_positions_x track_positions_y track_angles_phi track_angles_theta =
     map (\<lambda>z_position.
            map (\<lambda>(x, y, phi, theta).
                   let r = z_position / cos theta
                   in (x + r * (cos phi * sin theta), y + r * (sin phi * sin theta)))
              (zip track_positions_x
                 (zip track_positions_y (zip track_angles_phi track_angles_theta))))
       (z_positions S)"

section \<open>Digitization\<close>

text \<open>
  \<^verbatim>\<open>_get_charge_deposited\<close>: entries of the grid \<open>x * mpv\<close> for \<open>x = 0, 0.1, ..., 9.9\<close>.
\<close>

definition get_charge_deposited ::
  "settings \<Rightarrow> nat \<Rightarrow> nat \<Rightarrow> rng \<Rightarrow> (error + real list) \<times> rng" where
  "get_charge_deposited S dut_index n_entries g =
     (case item (dut_thickness S) dut_index of
        Inl e \<Rightarrow> (Inl e, g)
      | Inr th \<Rightarrow>
          let mpv = 77 * th;
              charge_grid = map (\<lambda>k. real k / 10 * mpv) [0..<100]
          in (Inr (fst (random_choice charge_grid n_entries g)),
              snd (random_choice charge_grid n_entries g)))"

text \<open>
  The branch of \<^verbatim>\<open>_digitize_hits\<close> for charge sharing. \<open>seeds\<close> are the seed hits, or
  \<open>None\<close> where their indices are not finite. The array of the relative positions has one
  row per hit and is passed transposed; \<open>heap\<close> is what the memory holds behind it. The
  settings of the plane are read before the call of the compiled function.
\<close>

definition share_charge ::
  "settings \<Rightarrow> (nat \<Rightarrow> real) \<Rightarrow> nat \<Rightarrow> (real \<times> real) list \<Rightarrow> (int \<times> int \<times> real) list option
     \<Rightarrow> int list \<Rightarrow> error + ((int \<times> int \<times> real) list \<times> int list)" where
  "share_charge S heap dut_index dut_hits seeds event_number =
     (case item (dut_pixel_size S) dut_index of Inl e \<Rightarrow> Inl e | Inr ps \<Rightarrow>
      case item (dut_n_pixel S) dut_index of Inl e \<Rightarrow> Inl e | Inr np \<Rightarrow>
      case item (dut_thickness S) dut_index of Inl e \<Rightarrow> Inl e | Inr th \<Rightarrow>
      case item (dut_bias S) dut_index of Inl e \<Rightarrow> Inl e | Inr b \<Rightarrow>
      case seeds of
        None \<Rightarrow> Inl NonFinite
      | Some dut_hits_digits \<Rightarrow>
        let relative_position =
              map (\<lambda>((x, y), (c, r, q)).
                     (x - (real_of_int c - 1 / 2) * fst ps,
                      y - (real_of_int r - 1 / 2) * snd ps))
                (zip dut_hits dut_hits_digits)
        in case add_charge_sharing_hits (transposed (rows_array relative_position heap))
                  dut_hits_digits (fst np) (snd np) th (fst ps) (snd ps) (temperature S) b of
             Inl e \<Rightarrow> Inl e
           | Inr (digits, n_hits_per_event) \<Rightarrow> Inr (digits, repeat event_number n_hits_per_event))"

text \<open>
  The steps of the loop over the planes in \<^verbatim>\<open>_digitize_hits\<close>, each on the event numbers
  and the hits of one plane. First the discretization: offset, pitch, rounding, with the
  pixel indices starting from 1. With a pitch of 0 in x or in y the division gives, for
  every hit, an infinity or NaN in place of that index: the result is \<open>None\<close>.
\<close>

definition discretize ::
  "real \<times> real \<Rightarrow> real \<times> real \<Rightarrow> (real \<times> real) list \<Rightarrow> (int \<times> int) list option" where
  "discretize off ps hits =
     (if (fst ps = 0 \<or> snd ps = 0) \<and> hits \<noteq> [] then None
      else Some (map (\<lambda>(x, y). (around ((x - fst off) / fst ps - 1 / 2) + 1,
                                around ((y - snd off) / snd ps - 1 / 2) + 1)) hits))"

text \<open>Mask hits outside of the DUT.\<close>

definition inside :: "int \<times> int \<Rightarrow> int \<times> int \<times> real \<Rightarrow> bool" where
  "inside np h \<longleftrightarrow> (fst h > 0 \<and> fst h \<le> fst np) \<and> (fst (snd h) > 0 \<and> fst (snd h) \<le> snd np)"

definition mask_outside ::
  "int \<times> int \<Rightarrow> int list \<times> (int \<times> int \<times> real) list \<Rightarrow> int list \<times> (int \<times> int \<times> real) list" where
  "mask_outside np eh =
     (masked (map (inside np) (snd eh)) (fst eh), masked (map (inside np) (snd eh)) (snd eh))"

text \<open>Mask hits due to inefficiency; the shuffle is made before the efficiency is read.\<close>

definition inefficient_selection :: "real \<Rightarrow> nat \<Rightarrow> nat list \<Rightarrow> bool list" where
  "inefficient_selection eff n hit_indices =
     foldl (\<lambda>sel i. sel[i := False]) (replicate n True)
       (slice_to (astype_int (real (length hit_indices) * (1 - eff))) hit_indices)"

definition mask_inefficient ::
  "real \<Rightarrow> nat list \<Rightarrow> int list \<times> (int \<times> int \<times> real) list
     \<Rightarrow> int list \<times> (int \<times> int \<times> real) list" where
  "mask_inefficient eff hit_indices eh =
     (masked (inefficient_selection eff (length (fst eh)) hit_indices) (fst eh),
      masked (inefficient_selection eff (length (fst eh)) hit_indices) (snd eh))"

text \<open>Add noise to charge.\<close>

definition add_noise :: "real list \<Rightarrow> (int \<times> int \<times> real) list \<Rightarrow> (int \<times> int \<times> real) list" where
  "add_noise vs digits = map (\<lambda>((c, r, q), v). (c, r, q + v)) (zip digits vs)"

text \<open>Delete hits below threshold.\<close>

definition mask_threshold ::
  "real \<Rightarrow> int list \<times> (int \<times> int \<times> real) list \<Rightarrow> int list \<times> (int \<times> int \<times> real) list" where
  "mask_threshold threshold eh =
     (masked (map (\<lambda>h. snd (snd h) \<ge> threshold) (snd eh)) (fst eh),
      masked (map (\<lambda>h. snd (snd h) \<ge> threshold) (snd eh)) (snd eh))"

text \<open>
  The steps from the mask on, which both branches share. Every read of a setting of the
  plane may fail, the draw of the noise fails for a negative sigma, and the generator is as
  the draws so far have left it.
\<close>

definition detect ::
  "settings \<Rightarrow> nat \<Rightarrow> int list \<times> (int \<times> int \<times> real) list \<Rightarrow> rng
     \<Rightarrow> (error + (int list \<times> (int \<times> int \<times> real) list)) \<times> rng" where
  "detect S dut_index eh g =
     (case item (dut_n_pixel S) dut_index of Inl e \<Rightarrow> (Inl e, g) | Inr np \<Rightarrow>
      let valid = mask_outside np eh;
          shuffled = random_shuffle [0..<length (fst valid)] g
      in
      case item (dut_efficiencies S) dut_index of
        Inl e \<Rightarrow> (Inl e, snd shuffled)
      | Inr eff \<Rightarrow>
      let seen = mask_inefficient eff (fst shuffled) valid in
      case item (dut_noise S) dut_index of
        Inl e \<Rightarrow> (Inl e, snd shuffled)
      | Inr noise \<Rightarrow>
      case random_normal 0 noise (length (snd seen)) (snd shuffled) of
        (Inl e, g2) \<Rightarrow> (Inl e, g2)
      | (Inr vs, g2) \<Rightarrow>
      case item (dut_threshold S) dut_index of
        Inl e \<Rightarrow> (Inl e, g2)
      | Inr threshold \<Rightarrow>
          (Inr (mask_threshold threshold (fst seen, add_noise vs (snd seen))), g2))"

text \<open>
  The body of the loop over the planes in \<^verbatim>\<open>_digitize_hits\<close>. Where the indices are not
  finite, every comparison of the mask is false for every hit and the mask leaves no record:
  without charge sharing the steps from the mask on run on empty arrays. With charge sharing
  the indices go to the cluster search first.
\<close>

definition digitize_dut ::
  "settings \<Rightarrow> (nat \<Rightarrow> real) \<Rightarrow> nat \<Rightarrow> int list \<Rightarrow> (real \<times> real) list \<Rightarrow> rng
     \<Rightarrow> (error + (int list \<times> (int \<times> int \<times> real) list)) \<times> rng" where
  "digitize_dut S heap dut_index event_number hits g =
     (case item (offsets S) dut_index of Inl e \<Rightarrow> (Inl e, g) | Inr off \<Rightarrow>
      case item (dut_pixel_size S) dut_index of Inl e \<Rightarrow> (Inl e, g) | Inr ps \<Rightarrow>
      case get_charge_deposited S dut_index (length hits) g of
        (Inl e, g1) \<Rightarrow> (Inl e, g1)
      | (Inr charges, g1) \<Rightarrow>
      let dut_hits = map (\<lambda>(x, y). (x - fst off, y - snd off)) hits;
          seeds = map_option (\<lambda>pixels. map (\<lambda>((c, r), q). (c, r, q)) (zip pixels charges))
                    (discretize off ps hits)
      in
      if digitization_charge_sharing S
      then (case share_charge S heap dut_index dut_hits seeds event_number of
              Inl e \<Rightarrow> (Inl e, g1)
            | Inr (dut_hits_digits, actual_event_number) \<Rightarrow>
                detect S dut_index (actual_event_number, dut_hits_digits) g1)
      else detect S dut_index
             (case seeds of None \<Rightarrow> ([], [])
              | Some dut_hits_digits \<Rightarrow> (event_number, dut_hits_digits)) g1)"

text \<open>The loop over the planes; the results are appended in the order of the planes.\<close>

fun digitize_loop ::
  "settings \<Rightarrow> (nat \<Rightarrow> real) \<Rightarrow> int list \<Rightarrow> nat \<Rightarrow> (real \<times> real) list list
     \<Rightarrow> int list list \<times> (int \<times> int \<times> real) list list \<Rightarrow> rng
     \<Rightarrow> (error + (int list list \<times> (int \<times> int \<times> real) list list)) \<times> rng" where
  "digitize_loop S heap event_number dut_index [] acc g = (Inr acc, g)"
| "digitize_loop S heap event_number dut_index (dut_hits # rest) acc g =
     (case digitize_dut S heap dut_index event_number dut_hits g of
        (Inl e, g1) \<Rightarrow> (Inl e, g1)
      | (Inr (events, digits), g1) \<Rightarrow>
          digitize_loop S heap event_number (dut_index + 1) rest
            (fst acc @ [events], snd acc @ [digits]) g1)"

definition digitize_hits ::
  "settings \<Rightarrow> (nat \<Rightarrow> real) \<Rightarrow> int list \<Rightarrow> (real \<times> real) list list \<Rightarrow> rng
     \<Rightarrow> (error + (int list list \<times> (int \<times> int \<times> real) list list)) \<times> rng" where
  "digitize_hits S heap event_number hits g = digitize_loop S heap event_number 0 hits ([], []) g"

section \<open>Chunks of events and the output tables\<close>

definition create_data ::
  "settings \<Rightarrow> (nat \<Rightarrow> real) \<Rightarrow> int \<Rightarrow> nat \<Rightarrow> rng
     \<Rightarrow> ((error + (int list list \<times> (int \<times> int \<times> real) list list)) \<times> rng) option" where
  "create_data S heap start_event_number n_events g =
     (case random_normal (tracks_per_event S) (tracks_per_event_sigma S) n_events g of
        (Inl e, g0) \<Rightarrow> Some (Inl e, g0)
      | (Inr drawn, g0) \<Rightarrow>
          let n_tracks_per_event = map (\<lambda>v. nat (max 0 (astype_int v))) drawn;
              event_number = map (\<lambda>e. e + start_event_number)
                               (repeat (map int [0..<n_events]) n_tracks_per_event)
          in case create_tracks S (sum_list n_tracks_per_event) g0 of
               None \<Rightarrow> None
             | Some (Inl e, g1) \<Rightarrow> Some (Inl e, g1)
             | Some (Inr (xs, ys, phis, thetas), g1) \<Rightarrow>
                 Some (digitize_hits S heap event_number
                         (create_hits_from_tracks S xs ys phis thetas) g1))"

text \<open>
  A row of a table, in the order of \<^verbatim>\<open>_hit_dtype\<close>: event number (int64), frame (uint8),
  column, row and charge (uint16). A number is stored in a table by truncation towards zero
  and reduction to the width of the field. One unit of charge is 10 electrons.
\<close>

type_synonym table_row = "64 word \<times> 8 word \<times> 16 word \<times> 16 word \<times> 16 word"

definition table_rows :: "int list \<Rightarrow> (int \<times> int \<times> real) list \<Rightarrow> table_row list" where
  "table_rows actual_dut_events actual_dut_hits =
     map (\<lambda>(e, (c, r, q)). (word_of_int e, 0, word_of_int c, word_of_int r,
                             word_of_int (astype_int (q / 10))))
       (zip actual_dut_events actual_dut_hits)"

fun store_loop ::
  "nat list \<Rightarrow> int list list \<Rightarrow> (int \<times> int \<times> real) list list \<Rightarrow> table_row list list
     \<Rightarrow> error + table_row list list" where
  "store_loop [] actual_events actual_digitized_hits hit_tables = Inr hit_tables"
| "store_loop (dut_index # rest) actual_events actual_digitized_hits hit_tables =
     (if length actual_events \<le> dut_index \<or> length actual_digitized_hits \<le> dut_index
         \<or> length hit_tables \<le> dut_index
      then Inl IndexError
      else store_loop rest actual_events actual_digitized_hits
             (hit_tables[dut_index := hit_tables ! dut_index
                 @ table_rows (actual_events ! dut_index) (actual_digitized_hits ! dut_index)]))"

text \<open>
  The loop over \<^verbatim>\<open>enumerate(range(0, n_events, chunk_size))\<close>: every chunk is a call of
  \<^verbatim>\<open>_create_data\<close> with \<open>chunk_index * chunk_size\<close> as the first event number and
  \<open>chunk_size\<close> as the number of events. \<open>chunk_calls\<close> is the list of these pairs of
  arguments. A negative number of events is refused by numpy.
\<close>

definition chunk_calls :: "int \<Rightarrow> int \<Rightarrow> (int \<times> int) list" where
  "chunk_calls n_events chunk_size =
     map (\<lambda>chunk_index. (int chunk_index * chunk_size, chunk_size))
       [0..<range_len n_events chunk_size]"

fun chunk_loop ::
  "settings \<Rightarrow> (nat \<Rightarrow> real) \<Rightarrow> (int \<times> int) list \<Rightarrow> table_row list list \<Rightarrow> rng
     \<Rightarrow> ((error + table_row list list) \<times> rng) option" where
  "chunk_loop S heap [] hit_tables g = Some (Inr hit_tables, g)"
| "chunk_loop S heap ((start_event_number, n_events) # rest) hit_tables g =
     (if n_events < 0 then Some (Inl ValueError, g)
      else case create_data S heap start_event_number (nat n_events) g of
        None \<Rightarrow> None
      | Some (Inl e, g1) \<Rightarrow> Some (Inl e, g1)
      | Some (Inr (actual_events, actual_digitized_hits), g1) \<Rightarrow>
          (case store_loop [0..<n_duts S] actual_events actual_digitized_hits hit_tables of
             Inl e \<Rightarrow> Some (Inl e, g1)
           | Inr tables1 \<Rightarrow> chunk_loop S heap rest tables1 g1))"

text \<open>A step of 0 is refused by \<^verbatim>\<open>range\<close>.\<close>

definition create_data_and_store ::
  "settings \<Rightarrow> (nat \<Rightarrow> real) \<Rightarrow> int \<Rightarrow> int \<Rightarrow> rng
     \<Rightarrow> ((error + table_row list list) \<times> rng) option" where
  "create_data_and_store S heap n_events chunk_size g =
     (if chunk_size = 0 then Some (Inl ValueError, g)
      else chunk_loop S heap (chunk_calls n_events chunk_size) (replicate (n_duts S) []) g)"

text \<open>The event numbers that a call of \<^verbatim>\<open>_create_data\<close> simulates: \<^verbatim>\<open>np.arange(n_events)\<close>
  plus the first event number.\<close>

definition simulated_events :: "int \<times> int \<Rightarrow> int list" where
  "simulated_events call = map (\<lambda>e. int e + fst call) [0..<nat (snd call)]"

section \<open>Inputs and predicates of the properties\<close>

text \<open>A seed hit in pixel (2, 2) of a plane of 10 by 10 pixels and of thickness 0.\<close>

definition zero_sigma_seed :: sharing_args where
  "zero_sigma_seed =
     \<lparr>relative_position = (0, 0), column = 2, row = 2, charge = 7700,
      max_column = 10, max_row = 10, thickness = 0, pixel_size_x = 50, pixel_size_y = 50,
      temperature = 300, bias = 50, digitization_sigma_cc = 1\<rparr>"

text \<open>The same plane with the seed hit one column beyond the last, and in the last column.\<close>

definition beyond_edge_seed :: sharing_args where
  "beyond_edge_seed = zero_sigma_seed\<lparr>column := 11, row := 1\<rparr>"

definition last_column_seed :: sharing_args where
  "last_column_seed = zero_sigma_seed\<lparr>column := 10\<rparr>"

text \<open>
  The charge fractions of the records that a call of the cluster search has written: the
  rows of the buffer from the first index of the call up to the index it returns, each
  charge divided by the charge of the seed hit.
\<close>

definition emitted_fractions ::
  "sharing_args \<Rightarrow> nat \<Rightarrow> (int \<times> int \<times> real) list \<times> nat \<times> nat \<Rightarrow> real list" where
  "emitted_fractions A start res =
     map (\<lambda>(c, r, q). q / charge A) (drop start (take (fst (snd res)) (fst res)))"

text \<open>
  \<open>extends P s s'\<close>: from \<open>s\<close> to \<open>s'\<close> the buffer keeps its length and its rows below
  the index of \<open>s\<close>, and the rows from there up to the index of \<open>s'\<close> exist and satisfy \<open>P\<close>.
\<close>

definition extends :: "((int \<times> int \<times> real) \<Rightarrow> bool) \<Rightarrow> scan_state \<Rightarrow> scan_state \<Rightarrow> bool" where
  "extends P s s' \<longleftrightarrow>
     index s \<le> index s' \<and> length (result_hits s') = length (result_hits s) \<and>
     (\<forall>i. i < index s \<longrightarrow> result_hits s' ! i = result_hits s ! i) \<and>
     (\<forall>i. index s \<le> i \<and> i < index s' \<longrightarrow> i < length (result_hits s') \<and> P (result_hits s' ! i))"

text \<open>The column and the row of a row of a table.\<close>

definition table_column :: "table_row \<Rightarrow> 16 word" where
  "table_column t = fst (snd (snd t))"

definition table_pixel_row :: "table_row \<Rightarrow> 16 word" where
  "table_pixel_row t = fst (snd (snd (snd t)))"

text \<open>Generators whose variates are all 0, and all 1; and a memory that holds zeros.\<close>

definition zero_rng :: rng where
  "zero_rng = \<lparr>variates = (\<lambda>i. 0), cursor = 0, draws = []\<rparr>"

definition unit_rng :: rng where
  "unit_rng = \<lparr>variates = (\<lambda>i. 1), cursor = 0, draws = []\<rparr>"

definition zero_memory :: "nat \<Rightarrow> real" where
  "zero_memory = (\<lambda>k. 0)"

text \<open>
  One plane with the standard settings of a plane, a beam without spread, one track in
  every event, no noise and no charge sharing.
\<close>

definition single_plane :: settings where
  "single_plane =
     \<lparr>n_duts = 1, z_positions = [0], offsets = [(- 2500, - 2500)], temperature = 300,
      beam_position = (0, 0), beam_position_sigma = (0, 0), beam_angle = 0,
      beam_angle_sigma = 0, tracks_per_event = 1, tracks_per_event_sigma = 0,
      dut_bias = [50], dut_thickness = [100], dut_threshold = [0], dut_noise = [0],
      dut_pixel_size = [(50, 50)], dut_n_pixel = [(1000, 1000)], dut_efficiencies = [1],
      digitization_charge_sharing = False, digitization_sigma_cc = 135 / 100\<rparr>"

text \<open>The same with 70000 columns and the beam in column 65536; with thickness 0, a
  negative pitch and no pixels; with a mean beam angle of 4000 mrad, which is more than pi;
  and with charge sharing on a plane of thickness 0.\<close>

definition wide_plane :: settings where
  "wide_plane = single_plane\<lparr>beam_position := (3274275, 0), dut_n_pixel := [(70000, 1000)]\<rparr>"

definition unchecked_settings :: settings where
  "unchecked_settings =
     single_plane\<lparr>dut_thickness := [0], dut_pixel_size := [(- 50, - 50)], dut_n_pixel := [(0, 0)]\<rparr>"

definition steep_beam :: settings where
  "steep_beam = single_plane\<lparr>beam_angle := 4000\<rparr>"

definition sharing_plane :: settings where
  "sharing_plane = single_plane\<lparr>dut_thickness := [0], digitization_charge_sharing := True\<rparr>"

text \<open>The plane with no charge sharing and a pitch of 0 in x.\<close>

definition zero_pitch_plane :: settings where
  "zero_pitch_plane = single_plane\<lparr>dut_pixel_size := [(0, 50)]\<rparr>"

text \<open>The standard settings with a beam half as wide in y as in x, and no spread of the angle.\<close>

definition narrow_y_settings :: settings where
  "narrow_y_settings = std_settings\<lparr>beam_position_sigma := (2000, 1000), beam_angle_sigma := 0\<rparr>"

text \<open>
  A seed hit in the middle of a plane of 1000 by 1000 pixels with a pitch of 0.3125 um,
  thickness 100 um, temperature 300 K and a bias of 41.36319552 V; the hit is at the lower
  left corner of its pixel. For these numbers \<open>sqrt (2 * sigma\<^sup>2)\<close> is 2.5 um, eight
  times the pitch.
\<close>

definition overflow_seed :: sharing_args where
  "overflow_seed =
     \<lparr>relative_position = (- 5 / 32, - 5 / 32), column = 500, row = 500, charge = 7700,
      max_column = 1000, max_row = 1000, thickness = 100, pixel_size_x = 5 / 16,
      pixel_size_y = 5 / 16, temperature = 300, bias = 4136319552 / 10 ^ 8,
      digitization_sigma_cc = 1\<rparr>"

section \<open>The charge fraction in the words of the specification\<close>

text \<open>
  The specification gives the diffusion sigma as drift distance times
  \<open>sqrt (2 * T / bias * k)\<close> times the correction factor, with the drift distance half the
  thickness and \<open>k = 8.6173324e-5\<close>; the bin integral of one axis as a quarter of the
  difference of two values of the error function; and the fraction of a pixel as the product
  of the bin integrals of the two axes, over the extent of the pixel.
\<close>

definition spec_sigma :: "real \<Rightarrow> real \<Rightarrow> real \<Rightarrow> real \<Rightarrow> real" where
  "spec_sigma thickness' T bias' cc =
     thickness' / 2 * sqrt (2 * T / bias' * (86173324 / 10 ^ 12)) * cc"

definition spec_axis_integral :: "real \<Rightarrow> real \<Rightarrow> real \<Rightarrow> real \<Rightarrow> real" where
  "spec_axis_integral lower upper mu sigma =
     1 / 4 * (erf ((upper - mu) / (sqrt 2 * sigma)) - erf ((lower - mu) / (sqrt 2 * sigma)))"

definition spec_charge_fraction ::
  "real \<Rightarrow> real \<Rightarrow> int \<Rightarrow> int \<Rightarrow> real \<Rightarrow> real \<Rightarrow> real \<Rightarrow> real" where
  "spec_charge_fraction mu1 mu2 ix iy pitch_x pitch_y sigma =
     spec_axis_integral (pitch_x * (real_of_int ix - 1 / 2)) (pitch_x * (real_of_int ix + 1 / 2)) mu1 sigma
     * spec_axis_integral (pitch_y * (real_of_int iy - 1 / 2)) (pitch_y * (real_of_int iy + 1 / 2)) mu2 sigma"

text \<open>The bin integral of one axis with the factor one half.\<close>

definition gauss_axis_integral :: "real \<Rightarrow> real \<Rightarrow> real \<Rightarrow> real \<Rightarrow> real" where
  "gauss_axis_integral lower upper mu sigma =
     1 / 2 * (erf ((upper - mu) / (sqrt 2 * sigma)) - erf ((lower - mu) / (sqrt 2 * sigma)))"

section \<open>The records of a plane in the words of the specification\<close>

text \<open>
  The pixel of a record, and the pixels of a sensor: the columns from 1 to the number of
  pixels in x and the rows from 1 to the number of pixels in y.
\<close>

definition pixel :: "int \<times> int \<times> real \<Rightarrow> int \<times> int" where
  "pixel h = (fst h, fst (snd h))"

definition in_sensor :: "int \<times> int \<Rightarrow> int \<times> int \<Rightarrow> bool" where
  "in_sensor np p \<longleftrightarrow> 1 \<le> fst p \<and> fst p \<le> fst np \<and> 1 \<le> snd p \<and> snd p \<le> snd np"




section \<open>The views of the relative positions\<close>

text \<open>
  The cluster search of seed hit \<open>i\<close> reads the view \<open>i\<close> of the array it is given. For the
  array of the rows this is row \<open>i\<close>. For the transposed array, which the digitization
  passes, it is the pair of the entries \<open>i\<close> and \<open>i + 2\<close> of the memory: with two hits or
  more both lie in the data of the array, and for the two hits \<open>(x0, y0)\<close> and \<open>(x1, y1)\<close>
  the views are \<open>(x0, x1)\<close> and \<open>(y0, y1)\<close>; with one hit the second entry lies behind the
  data.
\<close>

lemma row_view_rows: "i < length rows \<Longrightarrow> row_view (rows_array rows heap) i = rows ! i"
  by (simp add: row_view_def rows_array_def)

lemma row_view_transposed:
  "row_view (transposed (rows_array rows heap)) i
     = (memory (rows_array rows heap) i, memory (rows_array rows heap) (i + 2))"
  by (simp add: row_view_def transposed_def rows_array_def)

lemma row_view_two_hits:
  "row_view (transposed (rows_array [(x0, y0), (x1, y1)] heap)) 0 = (x0, x1)"
  "row_view (transposed (rows_array [(x0, y0), (x1, y1)] heap)) 1 = (y0, y1)"
  by (simp_all add: row_view_def transposed_def rows_array_def)

lemma row_view_one_hit:
  "row_view (transposed (rows_array [(x0, y0)] heap)) 0 = (x0, heap 0)"
  by (simp add: row_view_def transposed_def rows_array_def)

lemma transposed_reads_inside:
  "2 \<le> length rows \<Longrightarrow> i < length rows \<Longrightarrow> i + 2 < 2 * length rows"
  by simp

section \<open>The cluster search: what a call writes\<close>

lemma extends_refl: "extends P s s"
  by (auto simp add: extends_def)

lemma extends_trans: "extends P s s1 \<Longrightarrow> extends P s1 s2 \<Longrightarrow> extends P s s2"
  unfolding extends_def
  by (metis (no_types, lifting) le_trans not_le order.strict_trans2)

lemma extends_mono: "extends P s s' \<Longrightarrow> (\<And>h. P h \<Longrightarrow> Q h) \<Longrightarrow> extends Q s s'"
  unfolding extends_def by blast

lemma row_loop_extends:
  "row_loop A ac rows s = Inr s' \<Longrightarrow>
     extends (\<lambda>h. fst h = ac \<and> fst (snd h) \<in> set rows) s s'"
proof (induction rows arbitrary: s)
  case Nil
  then show ?case by (simp add: extends_refl)
next
  case (Cons r rows)
  define fr where "fr = pixel_fraction A ac r"
  let ?s1 = "s\<lparr>total_fraction := total_fraction s + fr\<rparr>"
  let ?s2 = "?s1\<lparr>result_hits := (result_hits ?s1)[index ?s1 := (ac, r, fr * charge A)],
                 index := index ?s1 + 1, n_hits := n_hits ?s1 + 1\<rparr>"
  show ?case
  proof (cases "fr < min_fraction")
    case True
    with Cons.prems have "s' = ?s1" by (simp add: fr_def Let_def)
    then show ?thesis by (simp add: extends_def)
  next
    case small: False
    show ?thesis
    proof (cases "length (result_hits s) \<le> index s")
      case True
      with Cons.prems small show ?thesis by (simp add: fr_def Let_def)
    next
      case fits: False
      have step: "extends (\<lambda>h. fst h = ac \<and> fst (snd h) \<in> set (r # rows)) s ?s2"
        using fits by (auto simp: extends_def nth_list_update)
      show ?thesis
      proof (cases "total_fraction ?s2 \<ge> 1 - min_fraction")
        case True
        with Cons.prems small fits have "s' = ?s2" by (simp add: fr_def Let_def)
        with step show ?thesis by simp
      next
        case False
        with Cons.prems small fits have "row_loop A ac rows ?s2 = Inr s'"
          by (simp add: fr_def Let_def)
        from Cons.IH[OF this]
        have "extends (\<lambda>h. fst h = ac \<and> fst (snd h) \<in> set (r # rows)) ?s2 s'"
          by (rule extends_mono) auto
        with step show ?thesis by (rule extends_trans)
      qed
    qed
  qed
qed

lemma column_loop_extends:
  "column_loop A cols s = Inr s' \<Longrightarrow>
     extends (\<lambda>h. fst h \<in> set cols \<and>
                  fst (snd h) \<in> set [row A..max_row A - 1] \<union> set (rev [1..row A - 1])) s s'"
proof (induction cols arbitrary: s)
  case Nil
  then show ?case by (simp add: extends_refl)
next
  case (Cons c cols)
  let ?P = "\<lambda>h. fst h \<in> set (c # cols) \<and>
                  fst (snd h) \<in> set [row A..max_row A - 1] \<union> set (rev [1..row A - 1])"
  show ?case
  proof (cases "total_fraction s \<ge> 1 - min_fraction \<or> pixel_fraction A c (row A) < min_fraction")
    case True
    with Cons.prems have "s' = s" by auto
    then show ?thesis by (simp add: extends_refl)
  next
    case False
    with Cons.prems obtain s1 s2 where
      up: "row_loop A c [row A..max_row A - 1] s = Inr s1" and
      down: "row_loop A c (rev [1..row A - 1]) s1 = Inr s2" and
      rest: "column_loop A cols s2 = Inr s'"
      by (auto split: sum.splits)
    have "extends ?P s s1"
      by (rule extends_mono[OF row_loop_extends[OF up]]) auto
    moreover have "extends ?P s1 s2"
      by (rule extends_mono[OF row_loop_extends[OF down]]) auto
    moreover have "extends ?P s2 s'"
      by (rule extends_mono[OF Cons.IH[OF rest]]) auto
    ultimately show ?thesis by (blast intro: extends_trans)
  qed
qed

lemma create_charge_sharing_hits_records:
  assumes "create_charge_sharing_hits A buffer start = Inr (buffer', stop, n)"
  shows "start \<le> stop \<and> length buffer' = length buffer \<and>
         (\<forall>i. i < start \<longrightarrow> buffer' ! i = buffer ! i) \<and>
         (\<forall>i. start \<le> i \<and> i < stop \<longrightarrow> i < length buffer' \<and>
            fst (buffer' ! i) \<in> {column A..max_column A - 1} \<union> {1..column A - 1} \<and>
            fst (snd (buffer' ! i)) \<in> {row A..max_row A - 1} \<union> {1..row A - 1})"
proof -
  let ?s0 = "\<lparr>total_fraction = 0, result_hits = buffer, index = start, n_hits = 0\<rparr>"
  let ?P = "\<lambda>h. fst h \<in> {column A..max_column A - 1} \<union> {1..column A - 1} \<and>
                 fst (snd h) \<in> {row A..max_row A - 1} \<union> {1..row A - 1}"
  from assms obtain s1 s2 where
    up: "column_loop A [column A..max_column A - 1] ?s0 = Inr s1" and
    down: "column_loop A (rev [1..column A - 1]) s1 = Inr s2" and
    res: "buffer' = result_hits s2" "stop = index s2"
    by (auto simp: create_charge_sharing_hits_def split: sum.splits)
  have "extends ?P ?s0 s1"
    by (rule extends_mono[OF column_loop_extends[OF up]]) auto
  moreover have "extends ?P s1 s2"
    by (rule extends_mono[OF column_loop_extends[OF down]]) auto
  ultimately have "extends ?P ?s0 s2" by (rule extends_trans)
  then show ?thesis using res by (auto simp add: extends_def)
qed

lemma zero_sigma_fraction:
  "thickness A = 0 \<Longrightarrow> pixel_fraction A c r = 1"
  by (simp add: pixel_fraction_def calc_charge_fraction_def calc_sigma_diffusion_def)

lemma zero_sigma_seed_fields:
  "thickness zero_sigma_seed = 0" "row zero_sigma_seed = 2" "column zero_sigma_seed = 2"
  "max_row zero_sigma_seed = 10" "max_column zero_sigma_seed = 10" "charge zero_sigma_seed = 7700"
  by (simp_all add: zero_sigma_seed_def)

section \<open>The degenerate diffusion sigma\<close>

text \<open>
  Claim C1. With a diffusion sigma of 0 the engine is to give the whole charge to the seed
  pixel, as one record of fraction 1, and to make no record for a neighbour. The code does
  not: for one seed hit in pixel (2, 2) of a plane of thickness 0 it writes two records,
  the seed pixel and its neighbour (2, 1), each with the whole charge of 7700, and counts
  two hits for the seed hit.
\<close>

theorem zero_sigma_emits_neighbour:
  "add_charge_sharing_hits (rows_array [(0, 0)] heap) [(2, 2, 7700)] 10 10 0 50 50 300 50
     = Inr ([(2, 2, 7700), (2, 1, 7700)], [2])"
  by (simp add: add_charge_sharing_hits_def create_charge_sharing_hits_def zero_sigma_fraction
        min_fraction_def Let_def numeral_eq_Suc)

text \<open>
  Claim C2. The charge fractions of the records of one seed hit are to sum to at most 1.
  For the seed hit of C1 the cluster search writes two records of fraction 1: the sum is 2.
\<close>

theorem zero_sigma_fraction_sum:
  "create_charge_sharing_hits zero_sigma_seed (replicate 5 (0, 0, 0)) 0
     = Inr ([(2, 2, 7700), (2, 1, 7700), (0, 0, 0), (0, 0, 0), (0, 0, 0)], 2, 2)
   \<and> sum_list (emitted_fractions zero_sigma_seed 0
        ([(2, 2, 7700), (2, 1, 7700), (0, 0, 0), (0, 0, 0), (0, 0, 0)], 2, 2)) = 2"
  by (simp add: create_charge_sharing_hits_def zero_sigma_fraction zero_sigma_seed_fields
        emitted_fractions_def min_fraction_def Let_def numeral_eq_Suc)

section \<open>The last column and the last row\<close>

text \<open>
  Claim C10, as stated, fails: a seed hit one column beyond the sensor (column 11 of 10)
  gets a record in column 10, which is not at most \<open>max_column - 1\<close>.
\<close>

theorem beyond_edge_record_in_last_column:
  "create_charge_sharing_hits beyond_edge_seed (replicate 5 (0, 0, 0)) 0
     = Inr ([(10, 1, 7700), (0, 0, 0), (0, 0, 0), (0, 0, 0), (0, 0, 0)], 1, 1)
   \<and> \<not> (10 \<le> max_column beyond_edge_seed - 1)"
  by (simp add: create_charge_sharing_hits_def zero_sigma_fraction zero_sigma_seed_fields
        beyond_edge_seed_def min_fraction_def Let_def numeral_eq_Suc upto_rec1)

text \<open>
  Claim C10, amended: for a seed pixel with \<open>column \<le> max_column\<close> and \<open>row \<le> max_row\<close>
  every record that the cluster search writes has a column of at most \<open>max_column - 1\<close>
  and a row of at most \<open>max_row - 1\<close>; so a seed pixel in the last column gets no record in
  that column.
\<close>

theorem cluster_records_below_max:
  assumes "create_charge_sharing_hits A buffer start = Inr (buffer', stop, n)"
    and "column A \<le> max_column A" and "row A \<le> max_row A"
    and "start \<le> i" and "i < stop"
  shows "fst (buffer' ! i) \<le> max_column A - 1 \<and> fst (snd (buffer' ! i)) \<le> max_row A - 1"
proof -
  from create_charge_sharing_hits_records[OF assms(1)] assms(4,5)
  have "fst (buffer' ! i) \<in> {column A..max_column A - 1} \<union> {1..column A - 1}"
    and "fst (snd (buffer' ! i)) \<in> {row A..max_row A - 1} \<union> {1..row A - 1}"
    by blast+
  with assms(2,3) show ?thesis by auto
qed

text \<open>
  The amended claim C10 at a seed pixel in the last column, (10, 2): both records are in
  column 9.
\<close>

theorem cluster_records_below_max_witness:
  "create_charge_sharing_hits last_column_seed (replicate 5 (0, 0, 0)) 0
     = Inr ([(9, 2, 7700), (9, 1, 7700), (0, 0, 0), (0, 0, 0), (0, 0, 0)], 2, 2)
   \<and> column last_column_seed \<le> max_column last_column_seed
   \<and> row last_column_seed \<le> max_row last_column_seed
   \<and> fst ([(9 :: int, 2 :: int, 7700 :: real), (9, 1, 7700), (0, 0, 0), (0, 0, 0), (0, 0, 0)] ! 1)
        \<le> max_column last_column_seed - 1"
proof -
  have run: "create_charge_sharing_hits last_column_seed (replicate 5 (0, 0, 0)) 0
     = Inr ([(9, 2, 7700), (9, 1, 7700), (0, 0, 0), (0, 0, 0), (0, 0, 0)], 2, 2)"
    by (simp add: create_charge_sharing_hits_def zero_sigma_fraction zero_sigma_seed_fields
          last_column_seed_def min_fraction_def Let_def numeral_eq_Suc upto_rec1)
  have c: "column last_column_seed \<le> max_column last_column_seed"
    and r: "row last_column_seed \<le> max_row last_column_seed"
    by (simp_all add: last_column_seed_def zero_sigma_seed_def)
  from cluster_records_below_max[OF run c r, of 1] run c r show ?thesis by simp
qed

section \<open>Boolean masks\<close>

lemma masked_Nil: "masked [] xs = []" "masked sel [] = []"
  by (simp_all add: masked_def)

lemma masked_Cons:
  "masked (b # sel) (x # xs) = (if b then x # masked sel xs else masked sel xs)"
  by (simp add: masked_def)

lemma masked_subset: "set (masked sel xs) \<subseteq> set xs"
  by (auto simp: masked_def dest: set_zip_rightD)

lemma masked_length: "length (masked sel xs) \<le> length xs"
proof -
  have "length (filter fst (zip sel xs)) \<le> length (zip sel xs)"
    by (rule length_filter_le)
  then show ?thesis by (simp add: masked_def)
qed


lemma masked_pred: "masked (map P xs) xs = filter P xs"
  by (induction xs) (simp_all add: masked_Nil masked_Cons)


lemma subseq_masked: "subseq (masked sel xs) xs"
  by (induction sel xs rule: list_induct2') (auto simp: masked_Nil masked_Cons)


lemma masked_all_true: "length xs = n \<Longrightarrow> masked (replicate n True) xs = xs"
proof -
  assume n: "length xs = n"
  have "filter fst (zip (replicate n True) xs) = zip (replicate n True) xs"
    by (rule filter_True) (auto dest: set_zip_leftD)
  then show ?thesis using n by (simp add: masked_def)
qed









section \<open>Digitization: the steps from the mask on\<close>

lemma inside_in_sensor: "inside np h \<longleftrightarrow> in_sensor np (pixel h)"
  by (auto simp: inside_def in_sensor_def pixel_def)





lemma detect_cases:
  assumes "detect S dut_index eh g = (Inr res, g')"
  obtains np eff noise threshold vs where
    "item (dut_n_pixel S) dut_index = Inr np"
    "item (dut_efficiencies S) dut_index = Inr eff"
    "item (dut_noise S) dut_index = Inr noise"
    "item (dut_threshold S) dut_index = Inr threshold"
    "random_normal 0 noise
       (length (snd (mask_inefficient eff
          (fst (random_shuffle [0..<length (fst (mask_outside np eh))] g)) (mask_outside np eh))))
       (snd (random_shuffle [0..<length (fst (mask_outside np eh))] g)) = (Inr vs, g')"
    "res = mask_threshold threshold
             (fst (mask_inefficient eff
                (fst (random_shuffle [0..<length (fst (mask_outside np eh))] g)) (mask_outside np eh)),
              add_noise vs (snd (mask_inefficient eff
                (fst (random_shuffle [0..<length (fst (mask_outside np eh))] g)) (mask_outside np eh))))"
  using assms
  by (auto simp: detect_def Let_def split: sum.splits prod.splits)

lemma item_Inr: "item xs i = Inr x \<Longrightarrow> i < length xs \<and> x = xs ! i"
  by (auto simp: item_def split: if_splits)











section \<open>Without charge sharing\<close>


section \<open>Digitization: the steps after the mask only remove records\<close>

lemma mask_outside_records:
  "snd (mask_outside np eh) = filter (\<lambda>h. in_sensor np (pixel h)) (snd eh)"
  unfolding mask_outside_def snd_conv masked_pred
  by (rule filter_cong) (simp_all add: inside_in_sensor)

lemma mask_inefficient_records:
  "subseq (snd (mask_inefficient eff idx eh)) (snd eh)"
  by (simp add: mask_inefficient_def subseq_masked)

lemma add_noise_pixels: "subseq (map pixel (add_noise vs ds)) (map pixel ds)"
proof -
  have "map pixel (add_noise vs ds) = map pixel (map fst (zip ds vs))"
    by (simp add: add_noise_def pixel_def split_def)
  also have "\<dots> = map pixel (take (min (length ds) (length vs)) ds)"
    by (simp only: map_fst_zip_take)
  finally show ?thesis
    by (simp only: subseq_map prefix_imp_subseq take_is_prefix)
qed

lemma mask_threshold_records: "subseq (snd (mask_threshold t eh)) (snd eh)"
  by (simp add: mask_threshold_def subseq_masked)

lemma detect_pixels:
  assumes "detect S k (ev, recs) g = (Inr (events, digits), g')"
  shows "k < length (dut_n_pixel S) \<and>
         subseq (map pixel digits)
           (map pixel (filter (\<lambda>h. in_sensor (dut_n_pixel S ! k) (pixel h)) recs))"
proof -
  from assms obtain np eff noise threshold vs sh where
    np: "item (dut_n_pixel S) k = Inr np" and
    res: "(events, digits) = mask_threshold threshold
             (fst (mask_inefficient eff sh (mask_outside np (ev, recs))),
              add_noise vs (snd (mask_inefficient eff sh (mask_outside np (ev, recs)))))"
    by (rule detect_cases)
  let ?valid = "mask_outside np (ev, recs)"
  let ?seen = "mask_inefficient eff sh ?valid"
  from res have "digits = snd (mask_threshold threshold (fst ?seen, add_noise vs (snd ?seen)))"
    by (metis snd_conv)
  then have "subseq digits (add_noise vs (snd ?seen))"
    using mask_threshold_records[of threshold "(fst ?seen, add_noise vs (snd ?seen))"] by simp
  then have "subseq (map pixel digits) (map pixel (add_noise vs (snd ?seen)))"
    by (rule subseq_map)
  also have "subseq (map pixel (add_noise vs (snd ?seen))) (map pixel (snd ?seen))"
    by (rule add_noise_pixels)
  also have "subseq (map pixel (snd ?seen)) (map pixel (snd ?valid))"
    by (intro subseq_map mask_inefficient_records)
  also have "snd ?valid = filter (\<lambda>h. in_sensor np (pixel h)) recs"
    by (simp add: mask_outside_records)
  finally have "subseq (map pixel digits) (map pixel (filter (\<lambda>h. in_sensor np (pixel h)) recs))" .
  with np show ?thesis by (auto dest: item_Inr)
qed

lemma detect_inside:
  assumes "detect S k eh g = (Inr (events, digits), g')" and "h \<in> set digits"
  shows "k < length (dut_n_pixel S) \<and> in_sensor (dut_n_pixel S ! k) (pixel h)"
proof -
  obtain ev recs where eh: "eh = (ev, recs)" by (cases eh) auto
  from detect_pixels[OF assms(1)[unfolded eh]] have
    k: "k < length (dut_n_pixel S)" and
    sub: "subseq (map pixel digits)
           (map pixel (filter (\<lambda>h. in_sensor (dut_n_pixel S ! k) (pixel h)) recs))"
    by simp_all
  from assms(2) have "pixel h \<in> set (map pixel digits)" by simp
  with sub obtain p where
    "p \<in> set (map pixel (filter (\<lambda>h. in_sensor (dut_n_pixel S ! k) (pixel h)) recs))" "pixel h = p"
    by (rule list_emb_set)
  then have "in_sensor (dut_n_pixel S ! k) (pixel h)" by auto
  with k show ?thesis by simp
qed

lemma digitize_dut_inside:
  assumes "digitize_dut S heap k event_number hits g = (Inr (events, digits), g')"
    and "h \<in> set digits"
  shows "k < length (dut_n_pixel S) \<and> in_sensor (dut_n_pixel S ! k) (pixel h)"
proof -
  from assms(1) obtain eh g1 where "detect S k eh g1 = (Inr (events, digits), g')"
    by (auto simp: digitize_dut_def Let_def split: sum.splits prod.splits if_splits)
  from detect_inside[OF this assms(2)] show ?thesis .
qed

lemma digitize_loop_inside:
  assumes "digitize_loop S heap event_number k hits acc g = (Inr (event_numbers, digitized_hits), g')"
    and "length (snd acc) = k"
    and "\<And>j h. j < k \<Longrightarrow> h \<in> set (snd acc ! j) \<Longrightarrow>
           j < length (dut_n_pixel S) \<and> in_sensor (dut_n_pixel S ! j) (pixel h)"
    and "j < length digitized_hits" and "h \<in> set (digitized_hits ! j)"
  shows "j < length (dut_n_pixel S) \<and> in_sensor (dut_n_pixel S ! j) (pixel h)"
  using assms
proof (induction hits arbitrary: k acc g)
  case Nil
  then show ?case by auto
next
  case (Cons dut_hits rest)
  from Cons.prems(1) obtain events digits g1 where
    one: "digitize_dut S heap k event_number dut_hits g = (Inr (events, digits), g1)" and
    more: "digitize_loop S heap event_number (k + 1) rest (fst acc @ [events], snd acc @ [digits]) g1
             = (Inr (event_numbers, digitized_hits), g')"
    by (auto split: prod.splits sum.splits)
  show ?case
  proof (rule Cons.IH[OF more _ _ Cons.prems(4,5)])
    show "length (snd (fst acc @ [events], snd acc @ [digits])) = k + 1"
      using Cons.prems(2) by simp
  next
    fix i x
    assume i: "i < k + 1" and x: "x \<in> set (snd (fst acc @ [events], snd acc @ [digits]) ! i)"
    show "i < length (dut_n_pixel S) \<and> in_sensor (dut_n_pixel S ! i) (pixel x)"
    proof (cases "i < k")
      case True
      with x Cons.prems(2) have "x \<in> set (snd acc ! i)" by (simp add: nth_append)
      with True Cons.prems(3) show ?thesis by blast
    next
      case False
      with i have "i = k" by simp
      with x Cons.prems(2) have "x \<in> set digits" by (simp add: nth_append)
      with digitize_dut_inside[OF one] \<open>i = k\<close> show ?thesis by blast
    qed
  qed
qed

lemma digitize_hits_inside:
  assumes "digitize_hits S heap event_number hits g = (Inr (event_numbers, digitized_hits), g')"
    and "j < length digitized_hits" and "h \<in> set (digitized_hits ! j)"
  shows "j < length (dut_n_pixel S) \<and> in_sensor (dut_n_pixel S ! j) (pixel h)"
proof (rule digitize_loop_inside[OF assms(1)[unfolded digitize_hits_def] _ _ assms(2,3)])
  show "length (snd ([], [])) = 0" by simp
qed simp

lemma create_data_inside:
  assumes "create_data S heap start n g = Some (Inr (event_numbers, digitized_hits), g')"
    and "j < length digitized_hits" and "h \<in> set (digitized_hits ! j)"
  shows "in_sensor (dut_n_pixel S ! j) (pixel h)"
proof -
  from assms(1) obtain ev hits g1 where
    "digitize_hits S heap ev hits g1 = (Inr (event_numbers, digitized_hits), g')"
    by (auto simp: create_data_def Let_def split: sum.splits prod.splits option.splits)
  from digitize_hits_inside[OF this assms(2,3)] show ?thesis by simp
qed

section \<open>The rows of the tables\<close>

lemma table_rows_pixels:
  assumes "t \<in> set (table_rows events digits)"
  obtains h where "h \<in> set digits" "table_column t = word_of_int (fst h)"
    "table_pixel_row t = word_of_int (fst (snd h))"
proof -
  from assms obtain e h where "(e, h) \<in> set (zip events digits)"
    and t: "t = (word_of_int e, 0, word_of_int (fst h), word_of_int (fst (snd h)),
                 word_of_int (astype_int (snd (snd h) / 10)))"
    by (auto simp: table_rows_def)
  then have "h \<in> set digits" by (auto dest: set_zip_rightD)
  with t show ?thesis by (intro that[of h]) (simp_all add: table_column_def table_pixel_row_def)
qed

lemma uint16_exact: "0 \<le> k \<Longrightarrow> k \<le> 65535 \<Longrightarrow> uint (word_of_int k :: 16 word) = k"
  by (simp add: uint_word_of_int_eq take_bit_int_eq_self)

lemma table_rows_in_sensor:
  assumes "t \<in> set (table_rows events digits)"
    and "\<And>h. h \<in> set digits \<Longrightarrow> in_sensor np (pixel h)"
    and "fst np \<le> 65535" and "snd np \<le> 65535"
  shows "in_sensor np (uint (table_column t), uint (table_pixel_row t))"
proof -
  from assms(1) obtain h where h: "h \<in> set digits"
    and c: "table_column t = word_of_int (fst h)"
    and r: "table_pixel_row t = word_of_int (fst (snd h))"
    by (rule table_rows_pixels)
  from assms(2)[OF h] have b: "1 \<le> fst h" "fst h \<le> fst np" "1 \<le> fst (snd h)" "fst (snd h) \<le> snd np"
    by (simp_all add: in_sensor_def pixel_def)
  with assms(3,4) have "uint (table_column t) = fst h" "uint (table_pixel_row t) = fst (snd h)"
    unfolding c r by (auto intro!: uint16_exact)
  with b show ?thesis by (simp add: in_sensor_def)
qed

lemma store_loop_rows:
  assumes "store_loop ks actual_events actual_digitized_hits tables = Inr tables'"
    and "\<And>k t. k < length tables \<Longrightarrow> t \<in> set (tables ! k) \<Longrightarrow> P k t"
    and "\<And>k t. k < length actual_digitized_hits \<Longrightarrow>
           t \<in> set (table_rows (actual_events ! k) (actual_digitized_hits ! k)) \<Longrightarrow> P k t"
  shows "length tables' = length tables \<and>
         (\<forall>k t. k < length tables' \<longrightarrow> t \<in> set (tables' ! k) \<longrightarrow> P k t)"
  using assms(1,2)
proof (induction ks arbitrary: tables)
  case Nil
  then show ?case by simp
next
  case (Cons i ks)
  let ?tables1 = "tables[i := tables ! i @ table_rows (actual_events ! i) (actual_digitized_hits ! i)]"
  from Cons.prems(1) have ok: "i < length actual_digitized_hits" "i < length tables"
    and rest: "store_loop ks actual_events actual_digitized_hits ?tables1 = Inr tables'"
    by (auto split: if_splits)
  have "length tables' = length ?tables1 \<and>
         (\<forall>k t. k < length tables' \<longrightarrow> t \<in> set (tables' ! k) \<longrightarrow> P k t)"
  proof (rule Cons.IH[OF rest])
    fix k t assume k: "k < length ?tables1" and t: "t \<in> set (?tables1 ! k)"
    show "P k t"
    proof (cases "k = i")
      case True
      with t ok have "t \<in> set (tables ! i) \<or>
          t \<in> set (table_rows (actual_events ! i) (actual_digitized_hits ! i))"
        by simp
      with True ok Cons.prems(2) assms(3) show ?thesis by blast
    next
      case False
      with t k Cons.prems(2) show ?thesis by simp
    qed
  qed
  then show ?case by simp
qed

lemma chunk_loop_rows:
  assumes "chunk_loop S heap calls tables g = Some (Inr tables', g')"
    and "\<And>k t. k < length tables \<Longrightarrow> t \<in> set (tables ! k) \<Longrightarrow>
           fst (dut_n_pixel S ! k) \<le> 65535 \<Longrightarrow> snd (dut_n_pixel S ! k) \<le> 65535 \<Longrightarrow>
           in_sensor (dut_n_pixel S ! k) (uint (table_column t), uint (table_pixel_row t))"
  shows "\<forall>k t. k < length tables' \<longrightarrow> t \<in> set (tables' ! k) \<longrightarrow>
           fst (dut_n_pixel S ! k) \<le> 65535 \<longrightarrow> snd (dut_n_pixel S ! k) \<le> 65535 \<longrightarrow>
           in_sensor (dut_n_pixel S ! k) (uint (table_column t), uint (table_pixel_row t))"
  using assms
proof (induction calls arbitrary: tables g)
  case Nil
  then show ?case by auto
next
  case (Cons call calls)
  obtain start n where call: "call = (start, n)" by (cases call) auto
  let ?P = "\<lambda>k t. fst (dut_n_pixel S ! k) \<le> 65535 \<longrightarrow> snd (dut_n_pixel S ! k) \<le> 65535 \<longrightarrow>
           in_sensor (dut_n_pixel S ! k) (uint (table_column t), uint (table_pixel_row t))"
  from Cons.prems(1) obtain ev dg g1 tables1 where
    data: "create_data S heap start (nat n) g = Some (Inr (ev, dg), g1)" and
    store: "store_loop [0..<n_duts S] ev dg tables = Inr tables1" and
    rest: "chunk_loop S heap calls tables1 g1 = Some (Inr tables', g')"
    unfolding call
    by (auto split: if_splits option.splits sum.splits prod.splits)
  have new: "?P k t" if "k < length dg" "t \<in> set (table_rows (ev ! k) (dg ! k))" for k t
  proof (intro impI)
    assume "fst (dut_n_pixel S ! k) \<le> 65535" "snd (dut_n_pixel S ! k) \<le> 65535"
    with that(2) create_data_inside[OF data that(1)]
    show "in_sensor (dut_n_pixel S ! k) (uint (table_column t), uint (table_pixel_row t))"
      by (intro table_rows_in_sensor[of t "ev ! k" "dg ! k"]) auto
  qed
  have old: "?P k t" if "k < length tables" "t \<in> set (tables ! k)" for k t
    using Cons.prems(2) that by blast
  from store_loop_rows[of "[0..<n_duts S]" ev dg tables tables1 ?P, OF store old new]
  have "\<And>k t. k < length tables1 \<Longrightarrow> t \<in> set (tables1 ! k) \<Longrightarrow> ?P k t"
    by blast
  then show ?case
    by (intro Cons.IH[OF rest]) blast
qed

section \<open>Pixel indices of the digitized hits\<close>

text \<open>
  Claim C5, amended. For the steps of the digitization from the mask on: the pixels of the
  records that are returned are, in their order, pixels of the records that enter the mask
  and lie in the sensor, so that the mask removes every record outside the sensor and the
  steps after it only remove records and change no column and no row; and every record
  returned has \<open>1 \<le> column \<le>\<close> the number of pixels in x and \<open>1 \<le> row \<le>\<close> the number of
  pixels in y of its plane. The same bounds hold for every record that the digitization of
  a chunk returns, for every plane, with and without charge sharing. For the rows of the
  tables that a run writes they hold on every plane whose two numbers of pixels are at most
  65535, the largest value of the 16-bit fields for column and row.
\<close>

theorem digitized_pixels_in_sensor:
  "(detect S dut_index (actual_event_number, dut_hits_digits) g = (Inr (events, digits), g') \<longrightarrow>
      subseq (map pixel digits)
        (map pixel (filter (\<lambda>h. in_sensor (dut_n_pixel S ! dut_index) (pixel h)) dut_hits_digits)) \<and>
      (\<forall>h \<in> set digits. in_sensor (dut_n_pixel S ! dut_index) (pixel h))) \<and>
   (digitize_hits S heap event_number hits g1 = (Inr (event_numbers, digitized_hits), g1') \<longrightarrow>
      (\<forall>k < length digitized_hits. \<forall>h \<in> set (digitized_hits ! k).
         in_sensor (dut_n_pixel S ! k) (pixel h))) \<and>
   (create_data_and_store S heap n_events chunk_size g2 = Some (Inr hit_tables, g2') \<longrightarrow>
      (\<forall>k < length hit_tables.
         fst (dut_n_pixel S ! k) \<le> 65535 \<and> snd (dut_n_pixel S ! k) \<le> 65535 \<longrightarrow>
         (\<forall>t \<in> set (hit_tables ! k).
            in_sensor (dut_n_pixel S ! k) (uint (table_column t), uint (table_pixel_row t)))))"
proof (intro conjI impI)
  assume run: "detect S dut_index (actual_event_number, dut_hits_digits) g = (Inr (events, digits), g')"
  from detect_pixels[OF run]
  show "subseq (map pixel digits)
        (map pixel (filter (\<lambda>h. in_sensor (dut_n_pixel S ! dut_index) (pixel h)) dut_hits_digits))"
    by simp
  from detect_inside[OF run]
  show "\<forall>h \<in> set digits. in_sensor (dut_n_pixel S ! dut_index) (pixel h)"
    by simp
next
  assume "digitize_hits S heap event_number hits g1 = (Inr (event_numbers, digitized_hits), g1')"
  from digitize_hits_inside[OF this]
  show "\<forall>k < length digitized_hits. \<forall>h \<in> set (digitized_hits ! k).
         in_sensor (dut_n_pixel S ! k) (pixel h)"
    by simp
next
  assume run: "create_data_and_store S heap n_events chunk_size g2 = Some (Inr hit_tables, g2')"
  then have loop: "chunk_loop S heap (chunk_calls n_events chunk_size) (replicate (n_duts S) []) g2
      = Some (Inr hit_tables, g2')"
    by (simp add: create_data_and_store_def split: if_splits)
  have "\<forall>k t. k < length hit_tables \<longrightarrow> t \<in> set (hit_tables ! k) \<longrightarrow>
           fst (dut_n_pixel S ! k) \<le> 65535 \<longrightarrow> snd (dut_n_pixel S ! k) \<le> 65535 \<longrightarrow>
           in_sensor (dut_n_pixel S ! k) (uint (table_column t), uint (table_pixel_row t))"
    by (rule chunk_loop_rows[OF loop]) simp
  then show "\<forall>k < length hit_tables.
         fst (dut_n_pixel S ! k) \<le> 65535 \<and> snd (dut_n_pixel S ! k) \<le> 65535 \<longrightarrow>
         (\<forall>t \<in> set (hit_tables ! k).
            in_sensor (dut_n_pixel S ! k) (uint (table_column t), uint (table_pixel_row t)))"
    by blast
qed

section \<open>Runs of the steps on concrete settings\<close>

lemma masked_lengths:
  "length xs = length ys \<Longrightarrow> length (masked sel xs) = length (masked sel ys)"
proof (induction sel arbitrary: xs ys)
  case Nil
  then show ?case by (simp add: masked_Nil)
next
  case (Cons b sel)
  then show ?case
    by (cases xs; cases ys) (simp_all add: masked_Nil masked_Cons)
qed

lemma masked_map_all:
  assumes "\<forall>y \<in> set ys. P y" and "length xs = length ys"
  shows "masked (map P ys) xs = xs"
proof -
  from assms(1) have "map P ys = replicate (length ys) True"
    by (induction ys) auto
  with assms(2) show ?thesis by (simp add: masked_all_true)
qed

lemma inefficient_selection_full: "inefficient_selection 1 n idx = replicate n True"
  by (simp add: inefficient_selection_def astype_int_def slice_to_def)

lemma add_noise_zero: "add_noise (replicate (length ds) 0) ds = ds"
proof -
  have "zip ds (replicate (length ds) (0::real)) = map (\<lambda>d. (d, 0)) ds"
    by (induction ds) simp_all
  then show ?thesis by (simp add: add_noise_def comp_def split_def)
qed

lemma random_normal_constant:
  "random_normal loc 0 n g
     = (Inr (replicate n loc), g\<lparr>cursor := cursor g + n, draws := draws g @ [Normal loc 0 n]\<rparr>)"
  by (simp add: random_normal_def consume_def map_replicate_const)

lemma random_shuffle_generator:
  "snd (random_shuffle xs g)
     = g\<lparr>cursor := cursor g + (length xs - 1), draws := draws g @ [Shuffle (length xs)]\<rparr>"
  by (simp add: random_shuffle_def consume_def)

text \<open>
  A plane with efficiency 1 and no noise, on records whose charges reach the threshold: the
  steps from the mask on return the records in the sensor.
\<close>

lemma detect_ideal:
  assumes "dut_n_pixel S = [np]" "dut_efficiencies S = [1]" "dut_noise S = [0]"
    "dut_threshold S = [thr]"
    and len: "length ev = length recs"
    and above: "\<forall>h \<in> set recs. thr \<le> snd (snd h)"
  shows "detect S 0 (ev, recs) g
     = (Inr (masked (map (inside np) recs) ev, filter (inside np) recs),
        g\<lparr>cursor := cursor g + (length (filter (inside np) recs) - 1)
                       + length (filter (inside np) recs),
          draws := draws g @ [Shuffle (length (filter (inside np) recs)),
                              Normal 0 0 (length (filter (inside np) recs))]\<rparr>)"
proof -
  let ?ev = "masked (map (inside np) recs) ev" and ?recs = "filter (inside np) recs"
  have valid: "mask_outside np (ev, recs) = (?ev, ?recs)"
    by (simp add: mask_outside_def masked_pred)
  have l: "length ?ev = length ?recs"
    using masked_lengths[OF len, of "map (inside np) recs"] by (simp add: masked_pred)
  have seen: "mask_inefficient 1 sh (?ev, ?recs) = (?ev, ?recs)" for sh
    by (simp add: mask_inefficient_def inefficient_selection_full masked_all_true l)
  have thr: "mask_threshold thr (?ev, ?recs) = (?ev, ?recs)"
    using above l by (simp add: mask_threshold_def masked_map_all)
  show ?thesis
    by (simp add: detect_def item_def assms(1-4) valid seen l random_normal_constant
          random_shuffle_generator add_noise_zero thr)
qed

lemma zero_rng_charge:
  "variates g = (\<lambda>i. 0) \<Longrightarrow> dut_thickness S = [th] \<Longrightarrow> get_charge_deposited S 0 n g
    = (Inr (replicate n 0), g\<lparr>cursor := cursor g + n, draws := draws g @ [Choice n]\<rparr>)"
  by (simp add: get_charge_deposited_def random_choice_def consume_def item_def
        map_replicate_const)

text \<open>The body of the loop over the planes on one plane, without charge sharing.\<close>

lemma quiet_plane_digits:
  assumes "variates g = (\<lambda>i. 0)" "offsets S = [off]" "dut_pixel_size S = [ps]"
    "dut_thickness S = [th]" "\<not> digitization_charge_sharing S"
    and "discretize off ps hits = Some pixels"
  shows "digitize_dut S heap 0 ev hits g
     = detect S 0 (ev, map (\<lambda>((c, r), q). (c, r, q)) (zip pixels (replicate (length hits) 0)))
         (g\<lparr>cursor := cursor g + length hits, draws := draws g @ [Choice (length hits)]\<rparr>)"
  by (simp add: digitize_dut_def item_def assms zero_rng_charge)

lemma resample_theta_in_range:
  "\<forall>t \<in> set theta. 0 \<le> t \<and> t \<le> pi \<Longrightarrow> resample_theta S (theta, g) = Some (Inr theta, g)"
  by (subst resample_theta.simps) (auto simp: not_less)

lemma repeat_ones: "length xs = n \<Longrightarrow> repeat xs (replicate n (Suc 0)) = xs"
proof (induction xs arbitrary: n)
  case Nil
  then show ?case by (simp add: repeat_def)
next
  case (Cons x xs)
  then obtain m where "n = Suc m" "length xs = m" by (cases n) auto
  with Cons.IH[of m] show ?case by (simp add: repeat_def)
qed

text \<open>
  A chunk for a beam without spread along the z axis, one track in every event and one plane
  at \<open>z = 0\<close>: every event has one hit, at the position of the beam.
\<close>

lemma quiet_beam_data:
  assumes "variates g = (\<lambda>i. 0)" "z_positions S = [0]" "beam_position_sigma S = (0, 0)"
    "beam_angle S = 0" "beam_angle_sigma S = 0" "tracks_per_event S = 1"
    "tracks_per_event_sigma S = 0"
  shows "create_data S heap start n g
     = Some (digitize_hits S heap (map (\<lambda>e. int e + start) [0..<n]) [replicate n (beam_position S)]
               (g\<lparr>cursor := cursor g + n + n, draws := draws g @ [Normal 1 0 n, Uniform n]\<rparr>))"
proof -
  have tracks: "create_tracks S n g0
     = Some (Inr (replicate n (fst (beam_position S)), replicate n (snd (beam_position S)),
                  map (\<lambda>u. u * 2 * pi) (fst (random_random n g0)), replicate n 0),
             snd (random_random n g0))" for g0
    by (simp add: create_tracks_def assms resample_theta_in_range)
  have ev: "repeat (map int [0..<n]) (replicate n (Suc 0)) = map int [0..<n]"
    by (rule repeat_ones) simp
  have hits: "create_hits_from_tracks S (replicate n x) (replicate n y) (replicate n 0) (replicate n 0)
      = [replicate n (x, y)]" for x y
    by (simp add: create_hits_from_tracks_def assms zip_replicate)
  show ?thesis
    by (simp add: create_data_def assms random_normal_constant astype_int_def tracks ev
          random_random_def consume_def map_replicate_const hits comp_def Let_def
          sum_list_replicate)
qed

lemma quiet_beam_one:
  assumes "variates g = (\<lambda>i. 0)" "z_positions S = [0]" "beam_position_sigma S = (0, 0)"
    "beam_angle S = 0" "beam_angle_sigma S = 0" "tracks_per_event S = 1"
    "tracks_per_event_sigma S = 0"
  shows "create_data S heap start 1 g
     = Some (digitize_hits S heap [start] [[beam_position S]]
               (g\<lparr>cursor := cursor g + 2, draws := draws g @ [Normal 1 0 1, Uniform 1]\<rparr>))"
  using quiet_beam_data[OF assms, of heap start 1] by simp

lemma single_plane_fields:
  "offsets single_plane = [(- 2500, - 2500)]" "dut_pixel_size single_plane = [(50, 50)]"
  "dut_thickness single_plane = [100]" "dut_n_pixel single_plane = [(1000, 1000)]"
  "dut_efficiencies single_plane = [1]" "dut_noise single_plane = [0]"
  "dut_threshold single_plane = [0]" "digitization_charge_sharing single_plane = False"
  "z_positions single_plane = [0]" "n_duts single_plane = 1"
  "beam_position single_plane = (0, 0)" "beam_position_sigma single_plane = (0, 0)"
  "beam_angle single_plane = 0" "beam_angle_sigma single_plane = 0"
  "tracks_per_event single_plane = 1" "tracks_per_event_sigma single_plane = 0"
  by (simp_all add: single_plane_def)

lemma zero_rng_fields: "variates zero_rng = (\<lambda>i. 0)" "cursor zero_rng = 0" "draws zero_rng = []"
  by (simp_all add: zero_rng_def)

lemma centre_pixels:
  "discretize (- 2500, - 2500) (50, 50) (replicate (Suc n) (0, 0)) = Some (replicate (Suc n) (51, 51))"
  by (simp add: discretize_def around_def Let_def)


lemma one_plane:
  "digitize_hits S heap ev [hits] g
     = (case digitize_dut S heap 0 ev hits g of
          (Inl e, g1) \<Rightarrow> (Inl e, g1)
        | (Inr (events, digits), g1) \<Rightarrow> (Inr ([events], [digits]), g1))"
  by (simp add: digitize_hits_def split: prod.splits sum.splits)

lemma centre_hits:
  assumes "variates g = (\<lambda>i. 0)"
  shows "digitize_dut single_plane heap 0 [a, b] [(0, 0), (0, 0)] g
     = (Inr ([a, b], [(51, 51, 0), (51, 51, 0)]),
        g\<lparr>cursor := cursor g + 5, draws := draws g @ [Choice 2, Shuffle 2, Normal 0 0 2]\<rparr>)"
proof -
  have d: "discretize (- 2500, - 2500) (50, 50) [(0, 0), (0, 0)] = Some [(51, 51), (51, 51)]"
    using centre_pixels[of 1] by (simp add: numeral_2_eq_2)
  have "digitize_dut single_plane heap 0 [a, b] [(0, 0), (0, 0)] g
      = detect single_plane 0 ([a, b], [(51, 51, 0), (51, 51, 0)])
          (g\<lparr>cursor := cursor g + 2, draws := draws g @ [Choice 2]\<rparr>)"
    using quiet_plane_digits[OF assms single_plane_fields(1,2,3) _ d, of heap "[a, b]"]
    by (simp add: single_plane_fields numeral_2_eq_2)
  also have "\<dots> = (Inr ([a, b], [(51, 51, 0), (51, 51, 0)]),
        g\<lparr>cursor := cursor g + 5, draws := draws g @ [Choice 2, Shuffle 2, Normal 0 0 2]\<rparr>)"
    by (subst detect_ideal[OF single_plane_fields(4,5,6,7)])
       (simp_all add: inside_def masked_Cons masked_Nil)
  finally show ?thesis .
qed

lemma two_events:
  assumes "variates g = (\<lambda>i. 0)"
  shows "create_data single_plane heap start 2 g
     = Some (Inr ([[start, start + 1]], [[(51, 51, 0), (51, 51, 0)]]),
             g\<lparr>cursor := cursor g + 9,
               draws := draws g @ [Normal 1 0 2, Uniform 2, Choice 2, Shuffle 2, Normal 0 0 2]\<rparr>)"
proof -
  have "create_data single_plane heap start 2 g
     = Some (digitize_hits single_plane heap [start, start + 1] [[(0, 0), (0, 0)]]
               (g\<lparr>cursor := cursor g + 2 + 2, draws := draws g @ [Normal 1 0 2, Uniform 2]\<rparr>))"
    using quiet_beam_data[OF assms single_plane_fields(9,12,13,14,15,16), of heap start 2]
    by (simp add: single_plane_fields numeral_2_eq_2 add.commute)
  then show ?thesis
    by (simp add: one_plane centre_hits assms)
qed

lemma three_events_in_chunks_of_two:
  "map_option fst (create_data_and_store single_plane heap 3 2 zero_rng)
     = Some (Inr [[(0, 0, 51, 51, 0), (1, 0, 51, 51, 0), (2, 0, 51, 51, 0), (3, 0, 51, 51, 0)]])"
proof -
  have calls: "chunk_calls 3 2 = [(0, 2), (2, 2)]"
    by (simp add: chunk_calls_def range_len_def numeral_2_eq_2)
  show ?thesis
    by (simp add: create_data_and_store_def calls two_events zero_rng_fields single_plane_fields
          table_rows_def astype_int_def)
qed

lemma chunk_calls_10_4: "chunk_calls 10 4 = [(0, 4), (4, 4), (8, 4)]"
  by (simp add: chunk_calls_def range_len_def numeral_eq_Suc)

lemma simulated_events_10_4:
  "concat (map simulated_events (chunk_calls 10 4)) = [0, 1, 2, 3, 4, 5, 6, 7, 8, 9, 10, 11]"
  by (simp add: chunk_calls_10_4 simulated_events_def numeral_eq_Suc)

lemma chunk_calls_default: "chunk_calls 10000 100000 = [(0, 100000)]"
  by (simp add: chunk_calls_def range_len_def)

section \<open>The number of simulated events\<close>

text \<open>
  Claim C6. A run is to simulate exactly \<open>n_events\<close> events, whatever the chunk size.
  The code gives every chunk \<open>chunk_size\<close> events, the last one too: for 10 events in
  chunks of 4 it calls \<^verbatim>\<open>_create_data\<close> three times with 4 events each and simulates the
  12 events 0 to 11; for the 10000 events of the tests, with the default chunk size of
  100000, it simulates one chunk of 100000 events; and a run of 3 events in chunks of 2 on
  one plane writes rows for the events 0 to 3.
\<close>

theorem chunks_simulate_surplus_events:
  "chunk_calls 10 4 = [(0, 4), (4, 4), (8, 4)]
   \<and> concat (map simulated_events (chunk_calls 10 4)) = [0, 1, 2, 3, 4, 5, 6, 7, 8, 9, 10, 11]
   \<and> chunk_calls 10000 100000 = [(0, 100000)]
   \<and> map_option fst (create_data_and_store single_plane heap 3 2 zero_rng)
       = Some (Inr [[(0, 0, 51, 51, 0), (1, 0, 51, 51, 0), (2, 0, 51, 51, 0), (3, 0, 51, 51, 0)]])"
  by (intro conjI)
     (rule chunk_calls_10_4 simulated_events_10_4 chunk_calls_default
        three_events_in_chunks_of_two)+

section \<open>The draws of the positions\<close>

text \<open>
  Claim C9. The y position of a track is to be drawn with the configured y sigma. The code
  draws it with the x sigma: for a beam with the sigmas 2000 in x and 1000 in y, the second
  request to the generator is a normal draw around the y mean 0 with scale 2000, and with a
  variate of 1 the y position is 2000.
\<close>

theorem y_position_drawn_with_x_sigma:
  "create_tracks narrow_y_settings 1 unit_rng
     = Some (Inr ([2000], [2000], [2 * pi], [0]),
             \<lparr>variates = (\<lambda>i. 1), cursor = 3,
              draws = [Normal 0 2000 1, Normal 0 2000 1, Uniform 1]\<rparr>)"
  by (simp add: create_tracks_def narrow_y_settings_def std_settings_def unit_rng_def
        random_normal_def random_random_def consume_def resample_theta_in_range Let_def)

section \<open>Without charge sharing: a hit outside the sensor\<close>


text \<open>With a pitch of 0 no index is finite, and the hit in the centre has no record.\<close>

lemma zero_pitch_hit_has_no_record:
  "discretize (- 2500, - 2500) (0, 50) [(0, 0)] = None"
  "digitize_dut zero_pitch_plane zero_memory 0 [7] [(0, 0)] zero_rng
     = (Inr ([], []), zero_rng\<lparr>cursor := 1, draws := [Choice 1, Shuffle 0, Normal 0 0 0]\<rparr>)"
proof -
  have f: "offsets zero_pitch_plane = [(- 2500, - 2500)]" "dut_pixel_size zero_pitch_plane = [(0, 50)]"
    "dut_thickness zero_pitch_plane = [100]" "dut_n_pixel zero_pitch_plane = [(1000, 1000)]"
    "dut_efficiencies zero_pitch_plane = [1]" "dut_noise zero_pitch_plane = [0]"
    "dut_threshold zero_pitch_plane = [0]" "digitization_charge_sharing zero_pitch_plane = False"
    by (simp_all add: zero_pitch_plane_def single_plane_def)
  show d: "discretize (- 2500, - 2500) (0, 50) [(0, 0)] = None"
    by (simp add: discretize_def)
  have "digitize_dut zero_pitch_plane zero_memory 0 [7] [(0, 0)] zero_rng
      = detect zero_pitch_plane 0 ([], []) (zero_rng\<lparr>cursor := 1, draws := [Choice 1]\<rparr>)"
    by (simp add: digitize_dut_def item_def f d
          zero_rng_charge[OF zero_rng_fields(1) f(3)] zero_rng_fields)
  also have "\<dots> = (Inr ([], []),
      zero_rng\<lparr>cursor := 1, draws := [Choice 1, Shuffle 0, Normal 0 0 0]\<rparr>)"
    by (subst detect_ideal[OF f(4,5,6,7)]) (simp_all add: masked_Nil zero_rng_def)
  finally show "digitize_dut zero_pitch_plane zero_memory 0 [7] [(0, 0)] zero_rng
     = (Inr ([], []), zero_rng\<lparr>cursor := 1, draws := [Choice 1, Shuffle 0, Normal 0 0 0]\<rparr>)" .
qed





section \<open>Clusters at a diffusion sigma of 0\<close>

lemma column_loop_done:
  "total_fraction s \<ge> 1 - min_fraction \<Longrightarrow> column_loop A cols s = Inr s"
  by (cases cols) simp_all

text \<open>
  A seed pixel inside the sensor and above row 1 gets two records, its own pixel and the
  pixel below; a seed pixel in a row up to 1 gets one record, its own pixel.
\<close>

lemma zero_sigma_cluster:
  assumes "thickness A = 0" "column A < max_column A" "row A < max_row A" "1 < row A"
    and "Suc start < length buffer"
  shows "create_charge_sharing_hits A buffer start
     = Inr (buffer[start := (column A, row A, charge A),
                   Suc start := (column A, row A - 1, charge A)], Suc (Suc start), 2)"
proof -
  have cols: "[column A..max_column A - 1] = column A # [column A + 1..max_column A - 1]"
    using assms(2) by (subst upto_rec1) simp_all
  have up: "[row A..max_row A - 1] = row A # [row A + 1..max_row A - 1]"
    using assms(3) by (subst upto_rec1) simp_all
  have down: "rev [1..row A - 1] = (row A - 1) # rev [1..row A - 1 - 1]"
    using assms(4) by (subst upto_rec2) simp_all
  let ?s0 = "\<lparr>total_fraction = 0, result_hits = buffer, index = start, n_hits = 0\<rparr>"
  let ?s1 = "\<lparr>total_fraction = 1,
              result_hits = buffer[start := (column A, row A, charge A)],
              index = Suc start, n_hits = 1\<rparr>"
  let ?s2 = "\<lparr>total_fraction = 2,
              result_hits = buffer[start := (column A, row A, charge A),
                                   Suc start := (column A, row A - 1, charge A)],
              index = Suc (Suc start), n_hits = 2\<rparr>"
  have r1: "row_loop A (column A) [row A..max_row A - 1] ?s0 = Inr ?s1"
    unfolding up using assms(5)
    by (simp add: zero_sigma_fraction[OF assms(1)] min_fraction_def Let_def)
  have r2: "row_loop A (column A) (rev [1..row A - 1]) ?s1 = Inr ?s2"
    unfolding down using assms(5)
    by (simp add: zero_sigma_fraction[OF assms(1)] min_fraction_def Let_def)
  have go: "\<not> (total_fraction ?s0 \<ge> 1 - min_fraction
              \<or> pixel_fraction A (column A) (row A) < min_fraction)"
    by (simp add: zero_sigma_fraction[OF assms(1)] min_fraction_def)
  have rest: "column_loop A [column A + 1..max_column A - 1] ?s2 = Inr ?s2"
    by (rule column_loop_done) (simp add: min_fraction_def)
  have c1: "column_loop A [column A..max_column A - 1] ?s0 = Inr ?s2"
    unfolding cols
    by (subst column_loop.simps) (simp only: go if_False r1 r2 rest sum.case)
  have c2: "column_loop A (rev [1..column A - 1]) ?s2 = Inr ?s2"
    by (rule column_loop_done) (simp add: min_fraction_def)
  show ?thesis
    by (simp add: create_charge_sharing_hits_def c1 c2)
qed

lemma zero_sigma_cluster_low:
  assumes "thickness A = 0" "column A < max_column A" "row A < max_row A" "row A \<le> 1"
    and "start < length buffer"
  shows "create_charge_sharing_hits A buffer start
     = Inr (buffer[start := (column A, row A, charge A)], Suc start, 1)"
proof -
  have cols: "[column A..max_column A - 1] = column A # [column A + 1..max_column A - 1]"
    using assms(2) by (subst upto_rec1) simp_all
  have up: "[row A..max_row A - 1] = row A # [row A + 1..max_row A - 1]"
    using assms(3) by (subst upto_rec1) simp_all
  have down: "rev [1..row A - 1] = []"
    using assms(4) by simp
  let ?s0 = "\<lparr>total_fraction = 0, result_hits = buffer, index = start, n_hits = 0\<rparr>"
  let ?s1 = "\<lparr>total_fraction = 1,
              result_hits = buffer[start := (column A, row A, charge A)],
              index = Suc start, n_hits = 1\<rparr>"
  have r1: "row_loop A (column A) [row A..max_row A - 1] ?s0 = Inr ?s1"
    unfolding up using assms(5)
    by (simp add: zero_sigma_fraction[OF assms(1)] min_fraction_def Let_def)
  have go: "\<not> (total_fraction ?s0 \<ge> 1 - min_fraction
              \<or> pixel_fraction A (column A) (row A) < min_fraction)"
    by (simp add: zero_sigma_fraction[OF assms(1)] min_fraction_def)
  have r2: "row_loop A (column A) (rev [1..row A - 1]) ?s1 = Inr ?s1"
    unfolding down by simp
  have rest: "column_loop A [column A + 1..max_column A - 1] ?s1 = Inr ?s1"
    by (rule column_loop_done) (simp add: min_fraction_def)
  have c1: "column_loop A [column A..max_column A - 1] ?s0 = Inr ?s1"
    unfolding cols
    by (subst column_loop.simps) (simp only: go if_False r1 r2 rest sum.case)
  have c2: "column_loop A (rev [1..column A - 1]) ?s1 = Inr ?s1"
    by (rule column_loop_done) (simp add: min_fraction_def)
  show ?thesis
    unfolding create_charge_sharing_hits_def c1 sum.case c2 by simp
qed

lemma sharing_plane_fields:
  "offsets sharing_plane = [(- 2500, - 2500)]" "dut_pixel_size sharing_plane = [(50, 50)]"
  "dut_thickness sharing_plane = [0]" "dut_n_pixel sharing_plane = [(1000, 1000)]"
  "dut_efficiencies sharing_plane = [1]" "dut_noise sharing_plane = [0]"
  "dut_threshold sharing_plane = [0]" "digitization_charge_sharing sharing_plane = True"
  "z_positions sharing_plane = [0]" "n_duts sharing_plane = 1"
  "beam_position sharing_plane = (0, 0)" "beam_position_sigma sharing_plane = (0, 0)"
  "beam_angle sharing_plane = 0" "beam_angle_sigma sharing_plane = 0"
  "tracks_per_event sharing_plane = 1" "tracks_per_event_sigma sharing_plane = 0"
  "dut_bias sharing_plane = [50]" "settings.temperature sharing_plane = 300"
  by (simp_all add: sharing_plane_def single_plane_def)

text \<open>Three seed hits on the plane of thickness 0, two in pixel (51, 51) and one in (51, 0).\<close>

lemma three_seeds:
  "add_charge_sharing_hits rel [(51, 51, 0), (51, 0, 0), (51, 51, 0)] 1000 1000 0 50 50 300 50
     = Inr ([(51, 51, 0), (51, 50, 0), (51, 0, 0), (51, 51, 0), (51, 50, 0)], [2, 1, 2])"
proof -
  have idx: "[0..<length [(51, 51, 0), (51, 0, 0), (51 :: int, 51 :: int, 0 :: real)]]
      = [0, Suc 0, Suc (Suc 0)]"
    by (simp add: upt_rec)
  have buf: "replicate (5 * length [(51, 51, 0), (51, 0, 0), (51 :: int, 51 :: int, 0 :: real)]) z
      = [z, z, z, z, z, z, z, z, z, z, z, z, z, z, z]" for z :: "int \<times> int \<times> real"
    by (simp add: numeral_eq_Suc)
  show ?thesis
    unfolding add_charge_sharing_hits_def idx buf
    by (simp add: zero_sigma_cluster zero_sigma_cluster_low Let_def)
qed

lemma three_seeds_centre:
  "add_charge_sharing_hits rel [(51, 51, 0), (51, 51, 0), (51, 51, 0)] 1000 1000 0 50 50 300 50
     = Inr ([(51, 51, 0), (51, 50, 0), (51, 51, 0), (51, 50, 0), (51, 51, 0), (51, 50, 0)],
            [2, 2, 2])"
proof -
  have idx: "[0..<length [(51, 51, 0), (51, 51, 0), (51 :: int, 51 :: int, 0 :: real)]]
      = [0, Suc 0, Suc (Suc 0)]"
    by (simp add: upt_rec)
  have buf: "replicate (5 * length [(51, 51, 0), (51, 51, 0), (51 :: int, 51 :: int, 0 :: real)]) z
      = [z, z, z, z, z, z, z, z, z, z, z, z, z, z, z]" for z :: "int \<times> int \<times> real"
    by (simp add: numeral_eq_Suc)
  show ?thesis
    unfolding add_charge_sharing_hits_def idx buf
    by (simp add: zero_sigma_cluster Let_def)
qed

lemma sharing_plane_digits:
  assumes "variates g = (\<lambda>i. 0)"
    and "discretize (- 2500, - 2500) (50, 50) hits = Some pixels"
    and "\<And>rel. add_charge_sharing_hits rel
           (map (\<lambda>((c, r), q). (c, r, q)) (zip pixels (replicate (length hits) 0)))
           1000 1000 0 50 50 300 50 = Inr (digits, counts)"
  shows "digitize_dut sharing_plane heap 0 ev hits g
     = detect sharing_plane 0 (repeat ev counts, digits)
         (g\<lparr>cursor := cursor g + length hits, draws := draws g @ [Choice (length hits)]\<rparr>)"
  by (simp add: digitize_dut_def share_charge_def item_def sharing_plane_fields
        zero_rng_charge[OF assms(1) sharing_plane_fields(3)] assms(2,3))

lemma sharing_on_three_hits:
  "digitize_hits sharing_plane zero_memory [7, 8, 9] [[(0, 0), (0, - 2520), (0, 0)]] zero_rng
     = (Inr ([[7, 7, 9, 9]], [[(51, 51, 0), (51, 50, 0), (51, 51, 0), (51, 50, 0)]]),
        zero_rng\<lparr>cursor := 10, draws := [Choice 3, Shuffle 4, Normal 0 0 4]\<rparr>)"
proof -
  have d: "discretize (- 2500, - 2500) (50, 50) [(0, 0), (0, - 2520), (0, 0)]
      = Some [(51, 51), (51, 0), (51, 51)]"
    by (simp add: discretize_def around_def Let_def)
  have r: "repeat [7, 8, 9 :: int] [2, Suc 0, 2] = [7, 7, 8, 9, 9]"
    by (simp add: repeat_def numeral_2_eq_2)
  have "digitize_dut sharing_plane zero_memory 0 [7, 8, 9] [(0, 0), (0, - 2520), (0, 0)] zero_rng
      = detect sharing_plane 0
          ([7, 7, 8, 9, 9], [(51, 51, 0), (51, 50, 0), (51, 0, 0), (51, 51, 0), (51, 50, 0)])
          (zero_rng\<lparr>cursor := 3, draws := [Choice 3]\<rparr>)"
    by (subst sharing_plane_digits[OF zero_rng_fields(1) d, where digits =
          "[(51, 51, 0), (51, 50, 0), (51, 0, 0), (51, 51, 0), (51, 50, 0)]" and counts = "[2, 1, 2]"])
       (simp_all add: three_seeds r zero_rng_fields numeral_3_eq_3)
  also have "\<dots> = (Inr ([7, 7, 9, 9], [(51, 51, 0), (51, 50, 0), (51, 51, 0), (51, 50, 0)]),
        zero_rng\<lparr>cursor := 10, draws := [Choice 3, Shuffle 4, Normal 0 0 4]\<rparr>)"
    by (subst detect_ideal[OF sharing_plane_fields(4,5,6,7)])
       (simp_all add: inside_def masked_Cons masked_Nil zero_rng_def)
  finally show ?thesis by (simp add: one_plane)
qed

lemma sharing_on_three_events:
  "map_option fst (create_data_and_store sharing_plane zero_memory 3 3 zero_rng)
     = Some (Inr [[(0, 0, 51, 51, 0), (0, 0, 51, 50, 0), (1, 0, 51, 51, 0), (1, 0, 51, 50, 0),
                   (2, 0, 51, 51, 0), (2, 0, 51, 50, 0)]])"
proof -
  have calls: "chunk_calls 3 3 = [(0, 3)]"
    by (simp add: chunk_calls_def range_len_def)
  have d: "discretize (- 2500, - 2500) (50, 50) [(0, 0), (0, 0), (0, 0)]
      = Some [(51, 51), (51, 51), (51, 51)]"
    using centre_pixels[of 2] by (simp add: numeral_3_eq_3)
  have r: "repeat [0, 1, 2 :: int] [2, 2, 2] = [0, 0, 1, 1, 2, 2]"
    by (simp add: repeat_def numeral_2_eq_2)
  have e: "map int [0..<3] = [0, 1, 2]"
    by (simp add: numeral_3_eq_3)
  have rp: "replicate 3 x = [x, x, x]" for x :: "real \<times> real"
    by (simp add: numeral_3_eq_3)
  have dut: "digitize_dut sharing_plane zero_memory 0 [0, 1, 2] [(0, 0), (0, 0), (0, 0)] g
      = (Inr ([0, 0, 1, 1, 2, 2],
              [(51, 51, 0), (51, 50, 0), (51, 51, 0), (51, 50, 0), (51, 51, 0), (51, 50, 0)]),
         g\<lparr>cursor := cursor g + 14, draws := draws g @ [Choice 3, Shuffle 6, Normal 0 0 6]\<rparr>)"
    if g: "variates g = (\<lambda>i. 0)" for g
  proof -
    have "digitize_dut sharing_plane zero_memory 0 [0, 1, 2] [(0, 0), (0, 0), (0, 0)] g
      = detect sharing_plane 0
          ([0, 0, 1, 1, 2, 2],
           [(51, 51, 0), (51, 50, 0), (51, 51, 0), (51, 50, 0), (51, 51, 0), (51, 50, 0)])
          (g\<lparr>cursor := cursor g + 3, draws := draws g @ [Choice 3]\<rparr>)"
      by (subst sharing_plane_digits[OF g d, where digits =
            "[(51, 51, 0), (51, 50, 0), (51, 51, 0), (51, 50, 0), (51, 51, 0), (51, 50, 0)]"
            and counts = "[2, 2, 2]"])
         (simp_all add: three_seeds_centre r numeral_3_eq_3)
    also have "\<dots> = (Inr ([0, 0, 1, 1, 2, 2],
              [(51, 51, 0), (51, 50, 0), (51, 51, 0), (51, 50, 0), (51, 51, 0), (51, 50, 0)]),
         g\<lparr>cursor := cursor g + 14, draws := draws g @ [Choice 3, Shuffle 6, Normal 0 0 6]\<rparr>)"
      by (subst detect_ideal[OF sharing_plane_fields(4,5,6,7)])
         (simp_all add: inside_def masked_Cons masked_Nil)
    finally show ?thesis .
  qed
  have "create_data sharing_plane zero_memory 0 3 zero_rng
     = Some (digitize_hits sharing_plane zero_memory [0, 1, 2] [[(0, 0), (0, 0), (0, 0)]]
               (zero_rng\<lparr>cursor := 6, draws := [Normal 1 0 3, Uniform 3]\<rparr>))"
    using quiet_beam_data[OF zero_rng_fields(1) sharing_plane_fields(9,12,13,14,15,16), of zero_memory 0 3]
    by (simp add: sharing_plane_fields zero_rng_fields e rp)
  then have "create_data sharing_plane zero_memory 0 3 zero_rng
     = Some (Inr ([[0, 0, 1, 1, 2, 2]],
              [[(51, 51, 0), (51, 50, 0), (51, 51, 0), (51, 50, 0), (51, 51, 0), (51, 50, 0)]]),
         zero_rng\<lparr>cursor := 20,
                   draws := [Normal 1 0 3, Uniform 3, Choice 3, Shuffle 6, Normal 0 0 6]\<rparr>)"
    by (simp add: one_plane dut zero_rng_def)
  then show ?thesis
    by (simp add: create_data_and_store_def calls sharing_plane_fields table_rows_def
          astype_int_def)
qed

section \<open>Which errors a chunk can end with\<close>

lemma item_error: "item xs i = Inl e \<Longrightarrow> e = IndexError"
  by (simp add: item_def split: if_splits)

lemma row_loop_error: "row_loop A ac rows s = Inl e \<Longrightarrow> e = IndexError"
proof (induction rows arbitrary: s)
  case Nil
  then show ?case by simp
next
  case (Cons r rows)
  then show ?case
    by (auto simp: Let_def split: if_splits)
qed

lemma column_loop_error: "column_loop A cols s = Inl e \<Longrightarrow> e = IndexError"
proof (induction cols arbitrary: s)
  case Nil
  then show ?case by simp
next
  case (Cons c cols)
  then show ?case
    by (auto split: sum.splits if_splits dest: row_loop_error)
qed

lemma create_charge_sharing_hits_error:
  "create_charge_sharing_hits A buffer start = Inl e \<Longrightarrow> e = IndexError"
  by (auto simp: create_charge_sharing_hits_def split: sum.splits dest: column_loop_error)

lemma seed_loop_error:
  "seed_loop rel hds mc mr th px py temp b idx st = Inl e \<Longrightarrow> e = IndexError"
proof (induction idx arbitrary: st)
  case Nil
  then show ?case by simp
next
  case (Cons i idx)
  obtain buffer k ns where st: "st = (buffer, k, ns)" by (cases st) auto
  from Cons.prems show ?case unfolding st
    by (auto simp: Let_def split: sum.splits if_splits prod.splits
          dest: create_charge_sharing_hits_error Cons.IH)
qed

lemma add_charge_sharing_hits_error:
  "add_charge_sharing_hits rel hds mc mr th px py temp b = Inl e \<Longrightarrow> e = IndexError"
  by (auto simp: add_charge_sharing_hits_def split: sum.splits prod.splits dest: seed_loop_error)

lemma share_charge_error: "share_charge S heap i dh seeds ev = Inl e \<Longrightarrow> e \<noteq> ValueError"
  by (auto simp: share_charge_def Let_def split: sum.splits prod.splits option.splits
        dest: item_error add_charge_sharing_hits_error)

lemma get_charge_deposited_error:
  "get_charge_deposited S i n g = (Inl e, g1) \<Longrightarrow> e = IndexError"
  by (auto simp: get_charge_deposited_def Let_def split: sum.splits dest: item_error)

lemma random_normal_error: "random_normal loc scale n g = (Inl e, g1) \<Longrightarrow> scale < 0"
  by (simp add: random_normal_def split: if_splits)

lemma detect_error:
  assumes "detect S i eh g = (Inl e, g1)" and "\<forall>x \<in> set (dut_noise S). 0 \<le> x"
  shows "e \<noteq> ValueError"
proof
  assume "e = ValueError"
  with assms(1) obtain noise n g2 where
    "item (dut_noise S) i = Inr noise" "random_normal 0 noise n g2 = (Inl ValueError, g1)"
    by (auto simp: detect_def Let_def split: sum.splits prod.splits dest: item_error)
  then have "noise \<in> set (dut_noise S)" "noise < 0"
    by (auto dest: item_Inr random_normal_error)
  with assms(2) show False by auto
qed

lemma digitize_dut_error:
  assumes "digitize_dut S heap i ev hits g = (Inl e, g1)" and "\<forall>x \<in> set (dut_noise S). 0 \<le> x"
  shows "e \<noteq> ValueError"
  using assms
  by (auto simp: digitize_dut_def Let_def split: sum.splits prod.splits if_splits
        dest: item_error get_charge_deposited_error share_charge_error detect_error)

lemma digitize_loop_error:
  assumes "digitize_loop S heap ev k hits acc g = (Inl e, g1)"
    and "\<forall>x \<in> set (dut_noise S). 0 \<le> x"
  shows "e \<noteq> ValueError"
  using assms(1)
proof (induction hits arbitrary: k acc g)
  case Nil
  then show ?case by simp
next
  case (Cons h hits)
  then show ?case
    by (auto split: sum.splits prod.splits dest: digitize_dut_error[OF _ assms(2)])
qed

lemma digitize_hits_error:
  "digitize_hits S heap ev hits g = (Inl e, g1) \<Longrightarrow> \<forall>x \<in> set (dut_noise S). 0 \<le> x
     \<Longrightarrow> e \<noteq> ValueError"
  by (auto simp: digitize_hits_def dest: digitize_loop_error)

lemma random_normal_drawn:
  "0 \<le> scale \<Longrightarrow> \<exists>vs g1. random_normal loc scale n g = (Inr vs, g1)"
  by (simp add: random_normal_def)

lemma resample_round_drawn:
  assumes "0 \<le> beam_angle_sigma S"
  shows "\<exists>theta1 g1. resample_round S theta g = (Inr theta1, g1)"
proof -
  from random_normal_drawn[OF assms] obtain high g1 where
    h: "random_normal (beam_angle S) (beam_angle_sigma S) (length (filter (\<lambda>t. t > pi) theta)) g
          = (Inr high, g1)"
    by blast
  from random_normal_drawn[OF assms] obtain low g2 where
    "random_normal (beam_angle S) (beam_angle_sigma S)
       (length (filter (\<lambda>t. t < 0) (assign_where (\<lambda>t. t > pi) theta high))) g1 = (Inr low, g2)"
    by blast
  with h show ?thesis by (simp add: resample_round_def)
qed

lemma resample_theta_drawn_aux:
  assumes run: "resample_theta S tg = Some r"
  shows "0 \<le> beam_angle_sigma S \<longrightarrow> (\<exists>theta. fst r = Inr theta)"
proof (rule resample_theta.raw_induct[where
      P = "\<lambda>S tg r. 0 \<le> beam_angle_sigma S \<longrightarrow> (\<exists>theta. fst r = Inr theta)", OF _ run])
  fix f :: "settings \<Rightarrow> real list \<times> rng \<Rightarrow> ((error + real list) \<times> rng) option"
    and S tg r
  assume IH: "\<And>S tg r. f S tg = Some r
      \<Longrightarrow> 0 \<le> beam_angle_sigma S \<longrightarrow> (\<exists>theta. fst r = Inr theta)"
  assume body: "(if (\<exists>t \<in> set (fst tg). pi < t) \<or> (\<exists>t \<in> set (fst tg). t < 0)
      then case resample_round S (fst tg) (snd tg) of
             (Inl e, g1) \<Rightarrow> Some (Inl e, g1)
           | (Inr theta1, g1) \<Rightarrow> f S (theta1, g1)
      else Some (Inr (fst tg), snd tg)) = Some r"
  show "0 \<le> beam_angle_sigma S \<longrightarrow> (\<exists>theta. fst r = Inr theta)"
  proof
    assume sig: "0 \<le> beam_angle_sigma S"
    show "\<exists>theta. fst r = Inr theta"
    proof (cases "(\<exists>t \<in> set (fst tg). pi < t) \<or> (\<exists>t \<in> set (fst tg). t < 0)")
      case True
      from resample_round_drawn[OF sig] obtain theta1 g1 where
        "resample_round S (fst tg) (snd tg) = (Inr theta1, g1)" by blast
      with body True have "f S (theta1, g1) = Some r" by simp
      from IH[OF this] sig show ?thesis by simp
    next
      case False
      with body show ?thesis by auto
    qed
  qed
qed

lemma resample_theta_drawn:
  "resample_theta S tg = Some (Inl e, g1) \<Longrightarrow> 0 \<le> beam_angle_sigma S \<Longrightarrow> False"
  using resample_theta_drawn_aux[of S tg "(Inl e, g1)"] by simp

lemma random_normal_no_error:
  "0 \<le> scale \<Longrightarrow> random_normal loc scale k g \<noteq> (Inl e, g1)"
  by (auto dest: random_normal_error)

lemma create_tracks_error:
  assumes "create_tracks S n g = Some (Inl e, g1)"
    and "0 \<le> fst (beam_position_sigma S)" and "0 \<le> beam_angle_sigma S"
  shows "beam_angle S / 1000 > pi \<or> beam_angle S / 1000 < 0"
proof (rule ccontr)
  assume ok: "\<not> (beam_angle S / 1000 > pi \<or> beam_angle S / 1000 < 0)"
  from assms ok show False
    by (auto simp: create_tracks_def random_normal_no_error
          split: if_splits prod.splits sum.splits option.splits
          dest: resample_theta_drawn)
qed

lemma create_data_value_error:
  assumes "create_data S heap start n g = Some (Inl ValueError, g1)"
    and "0 \<le> tracks_per_event_sigma S" and "0 \<le> fst (beam_position_sigma S)"
    and "0 \<le> beam_angle_sigma S" and "\<forall>x \<in> set (dut_noise S). 0 \<le> x"
  shows "beam_angle S / 1000 > pi \<or> beam_angle S / 1000 < 0"
proof (rule ccontr)
  assume ok: "\<not> (beam_angle S / 1000 > pi \<or> beam_angle S / 1000 < 0)"
  from random_normal_drawn[OF assms(2)] obtain drawn g0 where
    d: "random_normal (tracks_per_event S) (tracks_per_event_sigma S) n g = (Inr drawn, g0)"
    by blast
  let ?n = "sum_list (map (\<lambda>v. nat (max 0 (astype_int v))) drawn)"
  show False
  proof (cases "create_tracks S ?n g0")
    case None
    with assms(1) d show False by (simp add: create_data_def Let_def)
  next
    case (Some r)
    obtain res g2 where r: "r = (res, g2)" by (cases r) auto
    show False
    proof (cases res)
      case (Inl e)
      with Some r create_tracks_error[OF _ assms(3,4)] ok show False by blast
    next
      case (Inr tr)
      obtain xs ys phis thetas where tr: "tr = (xs, ys, phis, thetas)" by (cases tr) auto
      from assms(1) d Some r Inr tr obtain ev hits where
        "digitize_hits S heap ev hits g2 = (Inl ValueError, g1)"
        by (auto simp: create_data_def Let_def)
      from digitize_hits_error[OF this assms(5)] show False by simp
    qed
  qed
qed

section \<open>Rejection of settings\<close>

lemma steep_beam_rejected:
  "create_data steep_beam zero_memory 0 1 zero_rng
     = Some (Inl ValueError, zero_rng\<lparr>cursor := 1, draws := [Normal 1 0 1]\<rparr>)"
proof -
  have "pi < 4" by (rule pi_less_4)
  then show ?thesis
    by (simp add: create_data_def create_tracks_def random_normal_constant Let_def
          steep_beam_def single_plane_def zero_rng_def)
qed

lemma unchecked_settings_fields:
  "offsets unchecked_settings = [(- 2500, - 2500)]" "dut_pixel_size unchecked_settings = [(- 50, - 50)]"
  "dut_thickness unchecked_settings = [0]" "dut_n_pixel unchecked_settings = [(0, 0)]"
  "dut_efficiencies unchecked_settings = [1]" "dut_noise unchecked_settings = [0]"
  "dut_threshold unchecked_settings = [0]" "digitization_charge_sharing unchecked_settings = False"
  "z_positions unchecked_settings = [0]" "n_duts unchecked_settings = 1"
  "beam_position unchecked_settings = (0, 0)" "beam_position_sigma unchecked_settings = (0, 0)"
  "beam_angle unchecked_settings = 0" "beam_angle_sigma unchecked_settings = 0"
  "tracks_per_event unchecked_settings = 1" "tracks_per_event_sigma unchecked_settings = 0"
  by (simp_all add: unchecked_settings_def single_plane_def)

lemma unchecked_settings_run:
  "map_option fst (create_data unchecked_settings zero_memory 0 1 zero_rng) = Some (Inr ([[]], [[]]))"
proof -
  have d: "discretize (- 2500, - 2500) (- 50, - 50) [(0, 0)] = Some [(- 49, - 49)]"
    by (simp add: discretize_def around_def Let_def)
  have dut: "fst (digitize_dut unchecked_settings zero_memory 0 [0] [(0, 0)] g) = Inr ([], [])"
    if g: "variates g = (\<lambda>i. 0)" for g
  proof -
    have "digitize_dut unchecked_settings zero_memory 0 [0] [(0, 0)] g
      = detect unchecked_settings 0 ([0], [(- 49, - 49, 0)])
          (g\<lparr>cursor := cursor g + 1, draws := draws g @ [Choice 1]\<rparr>)"
      using quiet_plane_digits[OF g unchecked_settings_fields(1,2,3) _ d, of zero_memory "[0]"]
      by (simp add: unchecked_settings_fields)
    also have "fst \<dots> = Inr ([], [])"
      by (subst detect_ideal[OF unchecked_settings_fields(4,5,6,7)])
         (simp_all add: inside_def masked_Cons masked_Nil)
    finally show ?thesis .
  qed
  have "create_data unchecked_settings zero_memory 0 1 zero_rng
     = Some (digitize_hits unchecked_settings zero_memory [0] [[(0, 0)]]
               (zero_rng\<lparr>cursor := 2, draws := [Normal 1 0 1, Uniform 1]\<rparr>))"
    using quiet_beam_one[OF zero_rng_fields(1) unchecked_settings_fields(9,12,13,14,15,16),
        of zero_memory 0]
    by (simp only: unchecked_settings_fields zero_rng_fields add_0 append_Nil)
  moreover have "fst (digitize_hits unchecked_settings zero_memory [0] [[(0, 0)]]
               (zero_rng\<lparr>cursor := 2, draws := [Normal 1 0 1, Uniform 1]\<rparr>)) = Inr ([[]], [[]])"
    using dut[of "zero_rng\<lparr>cursor := 2, draws := [Normal 1 0 1, Uniform 1]\<rparr>"]
    by (auto simp: one_plane zero_rng_def split: prod.splits sum.splits)
  ultimately show ?thesis by simp
qed

text \<open>
  Claim C7, as stated, fails twice. A mean beam angle of 4000 mrad is rejected only after
  the numbers of tracks of the chunk have been drawn; and settings with thickness 0, a pitch
  of -50 and no pixels at all are not rejected: the chunk is simulated and returns no hits.
\<close>

theorem rejection_after_sampling_and_only_for_angle:
  "create_data steep_beam zero_memory 0 1 zero_rng
     = Some (Inl ValueError, zero_rng\<lparr>cursor := 1, draws := [Normal 1 0 1]\<rparr>)
   \<and> draws (zero_rng\<lparr>cursor := 1, draws := [Normal 1 0 1]\<rparr>) \<noteq> []
   \<and> dut_thickness unchecked_settings = [0]
   \<and> dut_pixel_size unchecked_settings = [(- 50, - 50)]
   \<and> dut_n_pixel unchecked_settings = [(0, 0)]
   \<and> map_option fst (create_data unchecked_settings zero_memory 0 1 zero_rng)
        = Some (Inr ([[]], [[]]))"
  by (intro conjI;
      (rule steep_beam_rejected unchecked_settings_run unchecked_settings_fields | simp))

text \<open>
  Claim C7, amended: for a mean beam angle outside \<open>[0, pi]\<close> (the setting is in mrad)
  every chunk fails with \<open>ValueError\<close>: with the error of \<^verbatim>\<open>_create_tracks\<close>, after the draw
  of the numbers of tracks per event of the chunk and before any draw of a position or an
  angle, or, where the sigma of the number of tracks is negative, with the error of numpy
  for that first draw, before anything is drawn. For a mean beam angle inside \<open>[0, pi]\<close>
  and sigmas that numpy accepts (the sigma of the number of tracks, the sigma of the beam
  position in x, with which both positions are drawn, the sigma of the angle and the noise
  of every plane are not negative) no chunk fails with \<open>ValueError\<close>, whatever the
  thickness, the pitch and the numbers of pixels are.
\<close>

theorem configuration_error_only_for_beam_angle:
  "(beam_angle S / 1000 > pi \<or> beam_angle S / 1000 < 0 \<longrightarrow>
      create_data S heap start_event_number n_events g
        = Some (Inl ValueError,
                if tracks_per_event_sigma S < 0 then g
                else g\<lparr>cursor := cursor g + n_events,
                       draws := draws g
                         @ [Normal (tracks_per_event S) (tracks_per_event_sigma S) n_events]\<rparr>)) \<and>
   (\<not> (beam_angle S / 1000 > pi \<or> beam_angle S / 1000 < 0) \<and>
    0 \<le> tracks_per_event_sigma S \<and> 0 \<le> fst (beam_position_sigma S) \<and>
    0 \<le> beam_angle_sigma S \<and> (\<forall>noise \<in> set (dut_noise S). 0 \<le> noise) \<longrightarrow>
      map_option fst (create_data S heap start_event_number n_events g) \<noteq> Some (Inl ValueError))"
proof (intro conjI impI)
  assume "beam_angle S / 1000 > pi \<or> beam_angle S / 1000 < 0"
  then show "create_data S heap start_event_number n_events g
        = Some (Inl ValueError,
                if tracks_per_event_sigma S < 0 then g
                else g\<lparr>cursor := cursor g + n_events,
                       draws := draws g
                         @ [Normal (tracks_per_event S) (tracks_per_event_sigma S) n_events]\<rparr>)"
    by (simp add: create_data_def create_tracks_def random_normal_def consume_def Let_def)
next
  assume ok: "\<not> (beam_angle S / 1000 > pi \<or> beam_angle S / 1000 < 0) \<and>
    0 \<le> tracks_per_event_sigma S \<and> 0 \<le> fst (beam_position_sigma S) \<and>
    0 \<le> beam_angle_sigma S \<and> (\<forall>noise \<in> set (dut_noise S). 0 \<le> noise)"
  show "map_option fst (create_data S heap start_event_number n_events g) \<noteq> Some (Inl ValueError)"
  proof
    assume "map_option fst (create_data S heap start_event_number n_events g) = Some (Inl ValueError)"
    then obtain g1 where "create_data S heap start_event_number n_events g = Some (Inl ValueError, g1)"
      by auto
    from create_data_value_error[OF this] ok show False by blast
  qed
qed

text \<open>
  The amended claim C7 at the settings with the mean beam angle of 4000 mrad, and at the
  settings with thickness 0, negative pitch and no pixels, for which the chunk does not end
  with \<open>ValueError\<close>: it returns no hits.
\<close>

theorem configuration_error_only_for_beam_angle_witness:
  "(beam_angle steep_beam / 1000 > pi \<or> beam_angle steep_beam / 1000 < 0) \<and>
   \<not> tracks_per_event_sigma steep_beam < 0 \<and>
   create_data steep_beam zero_memory 0 1 zero_rng
     = Some (Inl ValueError, zero_rng\<lparr>cursor := 1, draws := [Normal 1 0 1]\<rparr>) \<and>
   \<not> (beam_angle unchecked_settings / 1000 > pi \<or> beam_angle unchecked_settings / 1000 < 0) \<and>
   0 \<le> tracks_per_event_sigma unchecked_settings \<and>
   0 \<le> fst (beam_position_sigma unchecked_settings) \<and>
   0 \<le> beam_angle_sigma unchecked_settings \<and>
   dut_noise unchecked_settings = [0] \<and>
   map_option fst (create_data unchecked_settings zero_memory 0 1 zero_rng) \<noteq> Some (Inl ValueError) \<and>
   map_option fst (create_data unchecked_settings zero_memory 0 1 zero_rng) = Some (Inr ([[]], [[]]))"
proof -
  have "pi < 4" by (rule pi_less_4)
  then have bad: "beam_angle steep_beam / 1000 > pi \<or> beam_angle steep_beam / 1000 < 0"
    by (simp add: steep_beam_def single_plane_def)
  have sig: "\<not> tracks_per_event_sigma steep_beam < 0"
    by (simp add: steep_beam_def single_plane_def)
  have ok: "\<not> (beam_angle unchecked_settings / 1000 > pi \<or> beam_angle unchecked_settings / 1000 < 0)"
    "0 \<le> tracks_per_event_sigma unchecked_settings"
    "0 \<le> fst (beam_position_sigma unchecked_settings)"
    "0 \<le> beam_angle_sigma unchecked_settings"
    "dut_noise unchecked_settings = [0]"
    by (simp_all add: unchecked_settings_fields)
  from configuration_error_only_for_beam_angle[of steep_beam zero_memory 0 1 zero_rng] bad sig
  have a: "create_data steep_beam zero_memory 0 1 zero_rng
     = Some (Inl ValueError, zero_rng\<lparr>cursor := 1, draws := [Normal 1 0 1]\<rparr>)"
    by (simp add: steep_beam_def single_plane_def zero_rng_def)
  from configuration_error_only_for_beam_angle[of unchecked_settings zero_memory 0 1 zero_rng] ok
  have b: "map_option fst (create_data unchecked_settings zero_memory 0 1 zero_rng)
      \<noteq> Some (Inl ValueError)"
    by simp
  from a b bad sig ok unchecked_settings_run show ?thesis by (intro conjI)
qed

section \<open>Pixel indices: a plane of more than 65535 columns, and a plane with charge sharing\<close>

lemma wide_plane_fields:
  "offsets wide_plane = [(- 2500, - 2500)]" "dut_pixel_size wide_plane = [(50, 50)]"
  "dut_thickness wide_plane = [100]" "dut_n_pixel wide_plane = [(70000, 1000)]"
  "dut_efficiencies wide_plane = [1]" "dut_noise wide_plane = [0]"
  "dut_threshold wide_plane = [0]" "digitization_charge_sharing wide_plane = False"
  "z_positions wide_plane = [0]" "n_duts wide_plane = 1"
  "beam_position wide_plane = (3274275, 0)" "beam_position_sigma wide_plane = (0, 0)"
  "beam_angle wide_plane = 0" "beam_angle_sigma wide_plane = 0"
  "tracks_per_event wide_plane = 1" "tracks_per_event_sigma wide_plane = 0"
  by (simp_all add: wide_plane_def single_plane_def)

lemma far_hit:
  assumes "variates g = (\<lambda>i. 0)"
  shows "fst (digitize_hits wide_plane zero_memory [0] [[(3274275, 0)]] g)
    = Inr ([[0]], [[(65536, 51, 0)]])"
proof -
  have d: "discretize (- 2500, - 2500) (50, 50) [(3274275, 0)] = Some [(65536, 51)]"
    by (simp add: discretize_def around_def Let_def)
  have "digitize_dut wide_plane zero_memory 0 [0] [(3274275, 0)] g
      = detect wide_plane 0 ([0], [(65536, 51, 0)])
          (g\<lparr>cursor := cursor g + 1, draws := draws g @ [Choice 1]\<rparr>)"
    using quiet_plane_digits[OF assms wide_plane_fields(1,2,3) _ d, of zero_memory "[0]"]
    by (simp add: wide_plane_fields)
  also have "fst \<dots> = Inr ([0], [(65536, 51, 0)])"
    by (subst detect_ideal[OF wide_plane_fields(4,5,6,7)])
       (simp_all add: inside_def masked_Cons masked_Nil)
  finally show ?thesis
    by (auto simp: one_plane split: prod.splits sum.splits)
qed

lemma far_hit_run:
  "map_option fst (create_data_and_store wide_plane zero_memory 1 1 zero_rng)
     = Some (Inr [[(0, 0, 0, 51, 0)]])"
proof -
  have calls: "chunk_calls 1 1 = [(0, 1)]"
    by (simp add: chunk_calls_def range_len_def)
  have "create_data wide_plane zero_memory 0 1 zero_rng
     = Some (digitize_hits wide_plane zero_memory [0] [[(3274275, 0)]]
               (zero_rng\<lparr>cursor := 2, draws := [Normal 1 0 1, Uniform 1]\<rparr>))"
    using quiet_beam_one[OF zero_rng_fields(1) wide_plane_fields(9,12,13,14,15,16), of zero_memory 0]
    by (simp only: wide_plane_fields zero_rng_fields add_0 append_Nil)
  moreover obtain g1 where "digitize_hits wide_plane zero_memory [0] [[(3274275, 0)]]
               (zero_rng\<lparr>cursor := 2, draws := [Normal 1 0 1, Uniform 1]\<rparr>)
      = (Inr ([[0]], [[(65536, 51, 0)]]), g1)"
    using far_hit[of "zero_rng\<lparr>cursor := 2, draws := [Normal 1 0 1, Uniform 1]\<rparr>"]
    by (cases "digitize_hits wide_plane zero_memory [0] [[(3274275, 0)]]
               (zero_rng\<lparr>cursor := 2, draws := [Normal 1 0 1, Uniform 1]\<rparr>)")
       (simp add: zero_rng_def)
  ultimately show ?thesis
    by (simp add: create_data_and_store_def calls wide_plane_fields table_rows_def astype_int_def)
qed

text \<open>
  Claim C5, as stated, fails for the rows of a table: on a plane of 70000 columns with the
  beam in column 65536, the hit of the one event of a run is returned by the digitization
  with column 65536, and the run writes it to the table with column 0.
\<close>

theorem wide_plane_column_wraps:
  "fst (digitize_hits wide_plane zero_memory [0] [[(3274275, 0)]]
          (zero_rng\<lparr>cursor := 2, draws := [Normal 1 0 1, Uniform 1]\<rparr>))
     = Inr ([[0]], [[(65536, 51, 0)]])
   \<and> map_option fst (create_data_and_store wide_plane zero_memory 1 1 zero_rng)
       = Some (Inr [[(0, 0, 0, 51, 0)]])
   \<and> \<not> 1 \<le> uint (table_column (0, 0, 0, 51, 0))"
proof -
  have "variates (zero_rng\<lparr>cursor := 2, draws := [Normal 1 0 1, Uniform 1]\<rparr>) = (\<lambda>i. 0)"
    by (simp add: zero_rng_def)
  from far_hit[OF this] far_hit_run show ?thesis
    by (simp add: table_column_def)
qed

lemma masked_record:
  "detect sharing_plane 0 ([7, 8], [(51, 0, 0), (51, 51, 0)]) zero_rng
     = (Inr ([8], [(51, 51, 0)]), zero_rng\<lparr>cursor := 1, draws := [Shuffle 1, Normal 0 0 1]\<rparr>)"
  by (subst detect_ideal[OF sharing_plane_fields(4,5,6,7)])
     (simp_all add: inside_def masked_Cons masked_Nil zero_rng_def)

text \<open>
  The amended claim C5 on the plane with charge sharing. Of two records the mask removes
  the one in row 0; three hits, of which the second is below the sensor, give four
  records, all in the sensor; and a run of three events writes six rows, all in the sensor.
\<close>

theorem digitized_pixels_in_sensor_witness:
  "detect sharing_plane 0 ([7, 8], [(51, 0, 0), (51, 51, 0)]) zero_rng
     = (Inr ([8], [(51, 51, 0)]), zero_rng\<lparr>cursor := 1, draws := [Shuffle 1, Normal 0 0 1]\<rparr>)
   \<and> subseq (map pixel [(51, 51, 0)])
        (map pixel (filter (\<lambda>h. in_sensor (dut_n_pixel sharing_plane ! 0) (pixel h))
           [(51, 0, 0), (51, 51, 0)]))
   \<and> in_sensor (dut_n_pixel sharing_plane ! 0) (pixel (51, 51, 0))
   \<and> \<not> in_sensor (dut_n_pixel sharing_plane ! 0) (pixel (51, 0, 0))
   \<and> digitization_charge_sharing sharing_plane
   \<and> digitize_hits sharing_plane zero_memory [7, 8, 9] [[(0, 0), (0, - 2520), (0, 0)]] zero_rng
       = (Inr ([[7, 7, 9, 9]], [[(51, 51, 0), (51, 50, 0), (51, 51, 0), (51, 50, 0)]]),
          zero_rng\<lparr>cursor := 10, draws := [Choice 3, Shuffle 4, Normal 0 0 4]\<rparr>)
   \<and> in_sensor (dut_n_pixel sharing_plane ! 0) (pixel (51, 50, 0))
   \<and> map_option fst (create_data_and_store sharing_plane zero_memory 3 3 zero_rng)
       = Some (Inr [[(0, 0, 51, 51, 0), (0, 0, 51, 50, 0), (1, 0, 51, 51, 0), (1, 0, 51, 50, 0),
                     (2, 0, 51, 51, 0), (2, 0, 51, 50, 0)]])
   \<and> fst (dut_n_pixel sharing_plane ! 0) \<le> 65535 \<and> snd (dut_n_pixel sharing_plane ! 0) \<le> 65535
   \<and> in_sensor (dut_n_pixel sharing_plane ! 0)
        (uint (table_column (2, 0, 51, 50, 0)), uint (table_pixel_row (2, 0, 51, 50, 0)))"
proof -
  let ?rows = "[[(0, 0, 51, 51, 0), (0, 0, 51, 50, 0), (1, 0, 51, 51, 0), (1, 0, 51, 50, 0),
                 (2, 0, 51, 51, 0), (2, 0, 51, 50, 0)]] :: table_row list list"
  from sharing_on_three_events obtain g' where
    run: "create_data_and_store sharing_plane zero_memory 3 3 zero_rng = Some (Inr ?rows, g')"
    by auto
  have small: "fst (dut_n_pixel sharing_plane ! 0) \<le> 65535 \<and> snd (dut_n_pixel sharing_plane ! 0) \<le> 65535"
    by (simp add: sharing_plane_fields)
  have out: "\<not> in_sensor (dut_n_pixel sharing_plane ! 0) (pixel (51, 0, 0))"
    by (simp add: in_sensor_def pixel_def sharing_plane_fields)
  have on: "digitization_charge_sharing sharing_plane"
    by (simp add: sharing_plane_fields)
  note claim = digitized_pixels_in_sensor[where S = sharing_plane and heap = zero_memory]
  from claim[THEN conjunct1, rule_format, OF masked_record]
  have a: "subseq (map pixel [(51, 51, 0)])
        (map pixel (filter (\<lambda>h. in_sensor (dut_n_pixel sharing_plane ! 0) (pixel h))
           [(51, 0, 0), (51, 51, 0)]))"
    and b: "in_sensor (dut_n_pixel sharing_plane ! 0) (pixel (51, 51, 0))"
    by simp_all
  from claim[THEN conjunct2, THEN conjunct1, rule_format, OF sharing_on_three_hits,
      of 0 "(51, 50, 0)"]
  have c: "in_sensor (dut_n_pixel sharing_plane ! 0) (pixel (51, 50, 0))"
    by simp
  from claim[THEN conjunct2, THEN conjunct2, rule_format, OF run, of 0 "(2, 0, 51, 50, 0)"] small
  have d: "in_sensor (dut_n_pixel sharing_plane ! 0)
        (uint (table_column (2, 0, 51, 50, 0)), uint (table_pixel_row (2, 0, 51, 50, 0)))"
    by simp
  from masked_record a b out on sharing_on_three_hits c sharing_on_three_events small d
  show ?thesis by (intro conjI) simp_all
qed

section \<open>The series of the error function\<close>

lemma erf_coeff_nonneg: "0 \<le> x \<Longrightarrow> 0 \<le> erf_coeff x n"
  by (simp add: erf_coeff_def)

lemma erf_coeff_decreasing:
  assumes "0 \<le> x" "x \<le> 1"
  shows "erf_coeff x (Suc n) \<le> erf_coeff x n"
proof -
  have p: "x ^ (2 * Suc n + 1) \<le> x ^ (2 * n + 1)"
    using assms by (intro power_decreasing) auto
  have "fact n * real (2 * n + 1) \<le> fact n * real (2 * Suc n + 1)"
    by (intro mult_left_mono) auto
  also have "\<dots> \<le> fact (Suc n) * real (2 * Suc n + 1)"
    by (intro mult_right_mono) (auto simp: fact_mono)
  finally have d: "fact n * real (2 * n + 1) \<le> fact (Suc n) * real (2 * Suc n + 1)" .
  have pos: "0 < fact n * real (2 * n + 1)" by simp
  have "x ^ (2 * Suc n + 1) / (fact (Suc n) * real (2 * Suc n + 1))
      \<le> x ^ (2 * n + 1) / (fact n * real (2 * n + 1))"
    using assms p d pos by (intro frac_le) auto
  then show ?thesis unfolding erf_coeff_def .
qed

lemma erf_coeff_tendsto_0:
  assumes "0 \<le> x" "x \<le> 1"
  shows "erf_coeff x \<longlonglongrightarrow> 0"
proof (rule tendsto_sandwich[OF _ _ tendsto_const LIMSEQ_inverse_real_of_nat])
  show "\<forall>\<^sub>F n in sequentially. 0 \<le> erf_coeff x n"
    using assms by (simp add: erf_coeff_nonneg)
  show "\<forall>\<^sub>F n in sequentially. erf_coeff x n \<le> inverse (real (Suc n))"
  proof (rule always_eventually, rule allI)
    fix n
    have "x ^ (2 * n + 1) \<le> 1" using assms by (intro power_le_one) auto
    moreover have "real (Suc n) \<le> fact n * real (2 * n + 1)"
    proof -
      have "real (Suc n) \<le> 1 * real (2 * n + 1)" by simp
      also have "\<dots> \<le> fact n * real (2 * n + 1)"
        by (intro mult_right_mono) (auto simp: fact_ge_1)
      finally show ?thesis .
    qed
    ultimately have "x ^ (2 * n + 1) / (fact n * real (2 * n + 1)) \<le> 1 / real (Suc n)"
      using assms by (intro frac_le) auto
    then show "erf_coeff x n \<le> inverse (real (Suc n))"
      by (simp add: erf_coeff_def inverse_eq_divide)
  qed
qed

lemma erf_series_bounds:
  assumes "0 \<le> x" "x \<le> 1"
  shows "x - x ^ 3 / 3 \<le> erf_series x" and "erf_series x \<le> x - x ^ 3 / 3 + x ^ 5 / 10"
proof -
  note L = summable_Leibniz'[OF erf_coeff_tendsto_0[OF assms] erf_coeff_nonneg[OF assms(1)]
      erf_coeff_decreasing[OF assms]]
  have "(\<Sum>i<2 * 1. (- 1) ^ i * erf_coeff x i) \<le> erf_series x"
    unfolding erf_series_def by (rule L(2))
  then show "x - x ^ 3 / 3 \<le> erf_series x"
    by (simp add: erf_coeff_def numeral_2_eq_2 numeral_3_eq_3)
  have "erf_series x \<le> (\<Sum>i<2 * 1 + 1. (- 1) ^ i * erf_coeff x i)"
    unfolding erf_series_def by (rule L(4))
  then show "erf_series x \<le> x - x ^ 3 / 3 + x ^ 5 / 10"
    by (simp add: erf_coeff_def numeral_2_eq_2 numeral_3_eq_3 eval_nat_numeral)
qed

lemma erf_series_0: "erf_series 0 = 0"
  by (simp add: erf_series_def erf_coeff_def)

section \<open>A cluster of more than five pixels\<close>

lemma quarter_of_erf_product:
  "1 / 4 * (2 / sqrt pi * u - 2 / sqrt pi * v) * (2 / sqrt pi * w - 2 / sqrt pi * z)
      = 1 / pi * (u - v) * (w - z)"
proof -
  define c where "c = 2 / sqrt pi"
  have cc: "c * c = 4 / pi" by (simp add: c_def)
  have "1 / 4 * (c * u - c * v) * (c * w - c * z) = (c * c) / 4 * ((u - v) * (w - z))"
    by (simp add: field_simps)
  also have "\<dots> = 1 / pi * (u - v) * (w - z)"
    unfolding cc by simp
  finally show ?thesis unfolding c_def .
qed

lemma fraction_via_series:
  assumes "calc_sigma_diffusion z T b * cc = sigma" and "sigma \<noteq> 0"
    and "sqrt (2 * sigma\<^sup>2) = w"
  shows "calc_charge_fraction (m1, m2) z ix iy px py T b cc
     = 1 / pi
        * (erf_series ((px * (real_of_int ix + 1 / 2) - m1) / w)
             - erf_series ((px * (real_of_int ix - 1 / 2) - m1) / w))
        * (erf_series ((py * (real_of_int iy + 1 / 2) - m2) / w)
             - erf_series ((py * (real_of_int iy - 1 / 2) - m2) / w))"
  unfolding calc_charge_fraction_def bivariante_normal_cdf_limits_def assms(1) Let_def
  using assms(2) unfolding assms(3) erf_def quarter_of_erf_product by simp

lemma overflow_sigma:
  "calc_sigma_diffusion (thickness overflow_seed / 2) (sharing_args.temperature overflow_seed)
      (bias overflow_seed) * sharing_args.digitization_sigma_cc overflow_seed = 50 * sqrt (1 / 800)"
  by (simp add: calc_sigma_diffusion_def boltzman_constant_def overflow_seed_def)

lemma overflow_sigma_root: "sqrt (2 * (50 * sqrt (1 / 800))\<^sup>2) = 5 / 2"
proof -
  have "2 * (50 * sqrt (1 / 800))\<^sup>2 = (5 / 2)\<^sup>2"
    by (simp add: power_mult_distrib power2_eq_square)
  moreover have "sqrt ((5 / 2)\<^sup>2) = (5 / 2 :: real)" by simp
  ultimately show ?thesis by (simp only:)
qed

lemma overflow_fraction:
  "pixel_fraction overflow_seed (500 + i) (500 + j)
     = 1 / pi * (erf_series ((real_of_int i + 1) / 8) - erf_series (real_of_int i / 8))
              * (erf_series ((real_of_int j + 1) / 8) - erf_series (real_of_int j / 8))"
proof -
  have nz: "50 * sqrt (1 / 800) \<noteq> (0::real)" by simp
  have a: "(5 / 16 * (real_of_int k + 1 / 2) - (- 5 / 32)) / (5 / 2) = (real_of_int k + 1) / 8"
    "(5 / 16 * (real_of_int k - 1 / 2) - (- 5 / 32)) / (5 / 2) = real_of_int k / 8" for k
    by (simp_all add: field_simps)
  have f: "relative_position overflow_seed = (- 5 / 32, - 5 / 32)"
    "pixel_size_x overflow_seed = 5 / 16" "pixel_size_y overflow_seed = 5 / 16"
    "column overflow_seed = 500" "row overflow_seed = 500"
    by (simp_all add: overflow_seed_def)
  have "pixel_fraction overflow_seed (500 + i) (500 + j)
      = calc_charge_fraction (- 5 / 32, - 5 / 32) (thickness overflow_seed / 2) i j (5 / 16) (5 / 16)
          (sharing_args.temperature overflow_seed) (bias overflow_seed) (sharing_args.digitization_sigma_cc overflow_seed)"
    unfolding pixel_fraction_def f by simp
  also have "\<dots> = 1 / pi
        * (erf_series ((5 / 16 * (real_of_int i + 1 / 2) - (- 5 / 32)) / (5 / 2))
             - erf_series ((5 / 16 * (real_of_int i - 1 / 2) - (- 5 / 32)) / (5 / 2)))
        * (erf_series ((5 / 16 * (real_of_int j + 1 / 2) - (- 5 / 32)) / (5 / 2))
             - erf_series ((5 / 16 * (real_of_int j - 1 / 2) - (- 5 / 32)) / (5 / 2)))"
    by (rule fraction_via_series[OF overflow_sigma nz overflow_sigma_root])
  finally show ?thesis unfolding a .
qed

lemma series_points:
  "erf_series 0 = 0"
  "1243 / 10000 \<le> erf_series (1 / 8)" "erf_series (1 / 8) \<le> 1244 / 10000"
  "2447 / 10000 \<le> erf_series (2 / 8)" "erf_series (2 / 8) \<le> 2449 / 10000"
  "3574 / 10000 \<le> erf_series (3 / 8)" "erf_series (3 / 8) \<le> 3582 / 10000"
  "4583 / 10000 \<le> erf_series (4 / 8)" "erf_series (4 / 8) \<le> 4615 / 10000"
  "5436 / 10000 \<le> erf_series (5 / 8)" "erf_series (5 / 8) \<le> 5532 / 10000"
  "6093 / 10000 \<le> erf_series (6 / 8)" "erf_series (6 / 8) \<le> 6332 / 10000"
  using erf_series_bounds[of "1 / 8"] erf_series_bounds[of "2 / 8"] erf_series_bounds[of "3 / 8"]
    erf_series_bounds[of "4 / 8"] erf_series_bounds[of "5 / 8"] erf_series_bounds[of "6 / 8"]
  by (simp_all add: erf_series_0 power_divide)

lemma series_steps:
  assumes "0 \<le> k" "k \<le> 5"
  shows "5 / 100 \<le> erf_series ((real_of_int k + 1) / 8) - erf_series (real_of_int k / 8)"
    and "erf_series ((real_of_int k + 1) / 8) - erf_series (real_of_int k / 8) \<le> 13 / 100"
proof -
  from assms have "k = 0 \<or> k = 1 \<or> k = 2 \<or> k = 3 \<or> k = 4 \<or> k = 5" by auto
  then show "5 / 100 \<le> erf_series ((real_of_int k + 1) / 8) - erf_series (real_of_int k / 8)"
    and "erf_series ((real_of_int k + 1) / 8) - erf_series (real_of_int k / 8) \<le> 13 / 100"
    using series_points by auto
qed

lemma first_step: "12 / 100 \<le> erf_series ((real_of_int 0 + 1) / 8) - erf_series (real_of_int 0 / 8)"
  using series_points by simp

lemma overflow_fraction_bounds:
  assumes "0 \<le> j" "j \<le> 5"
  shows "min_fraction \<le> pixel_fraction overflow_seed 500 (500 + j)"
    and "pixel_fraction overflow_seed 500 (500 + j) \<le> 1 / 100"
proof -
  define a where "a = erf_series ((real_of_int 0 + 1) / 8) - erf_series (real_of_int 0 / 8)"
  define b where "b = erf_series ((real_of_int j + 1) / 8) - erf_series (real_of_int j / 8)"
  have a: "12 / 100 \<le> a" "a \<le> 13 / 100"
    using first_step series_steps(2)[of 0] by (simp_all add: a_def)
  have b: "5 / 100 \<le> b" "b \<le> 13 / 100"
    using series_steps[OF assms] by (simp_all add: b_def)
  have f: "pixel_fraction overflow_seed 500 (500 + j) = 1 / pi * a * b"
    using overflow_fraction[of 0 j] by (simp add: a_def b_def)
  have "12 / 100 * (5 / 100) \<le> a * b"
    using a b by (intro mult_mono) auto
  moreover have "a * b \<le> 13 / 100 * (13 / 100)"
    using a b by (intro mult_mono) auto
  moreover have "2 \<le> pi" "pi < 4" by (rule pi_ge_two, rule pi_less_4)
  ultimately have "1 / 1000 \<le> 1 / pi * a * b" "1 / pi * a * b \<le> 1 / 100"
    by (simp_all add: field_simps)
  with f show "min_fraction \<le> pixel_fraction overflow_seed 500 (500 + j)"
    and "pixel_fraction overflow_seed 500 (500 + j) \<le> 1 / 100"
    by (simp_all add: min_fraction_def)
qed

lemma row_loop_overflow:
  assumes "n \<le> length rows"
    and "\<And>i. i < n \<Longrightarrow> min_fraction \<le> pixel_fraction A ac (rows ! i)
                       \<and> pixel_fraction A ac (rows ! i) \<le> 1 / 100"
    and "total_fraction s + real n / 100 < 1 - min_fraction"
    and "length (result_hits s) - index s < n"
  shows "row_loop A ac rows s = Inl IndexError"
  using assms
proof (induction rows arbitrary: n s)
  case Nil
  then show ?case by simp
next
  case (Cons r rows)
  from Cons.prems(4) obtain m where n: "n = Suc m" by (cases n) auto
  define f where "f = pixel_fraction A ac r"
  from Cons.prems(2)[of 0] n have f: "min_fraction \<le> f" "f \<le> 1 / 100"
    by (simp_all add: f_def)
  show ?case
  proof (cases "length (result_hits s) \<le> index s")
    case True
    with f show ?thesis by (simp add: Let_def f_def[symmetric])
  next
    case False
    let ?s2 = "s\<lparr>total_fraction := total_fraction s + f,
                  result_hits := (result_hits s)[index s := (ac, r, f * charge A)],
                  index := index s + 1, n_hits := n_hits s + 1\<rparr>"
    have tot: "total_fraction ?s2 + real m / 100 < 1 - min_fraction"
      using Cons.prems(3) f(2) n by (simp add: field_simps)
    then have go: "\<not> total_fraction ?s2 \<ge> 1 - min_fraction"
      by (smt (verit) divide_nonneg_nonneg of_nat_0_le_iff)
    have "row_loop A ac rows ?s2 = Inl IndexError"
    proof (rule Cons.IH[OF _ _ tot])
      show "m \<le> length rows" using Cons.prems(1) n by simp
      show "min_fraction \<le> pixel_fraction A ac (rows ! i)
              \<and> pixel_fraction A ac (rows ! i) \<le> 1 / 100"
        if "i < m" for i
        using Cons.prems(2)[of "Suc i"] that n by simp
      show "length (result_hits ?s2) - index ?s2 < m"
        using Cons.prems(4) False n by simp
    qed
    with f False go show ?thesis by (simp add: Let_def f_def[symmetric])
  qed
qed

lemma overflow_seed_fields:
  "column overflow_seed = 500" "row overflow_seed = 500"
  "max_column overflow_seed = 1000" "max_row overflow_seed = 1000"
  by (simp_all add: overflow_seed_def)

lemma overflow_row_loop:
  "row_loop overflow_seed 500 [500..999]
     \<lparr>total_fraction = 0, result_hits = replicate 5 (0, 0, 0), index = 0, n_hits = 0\<rparr>
   = Inl IndexError"
proof (rule row_loop_overflow[where n = 6])
  show "6 \<le> length [500..999::int]" by simp
  show "min_fraction \<le> pixel_fraction overflow_seed 500 ([500..999] ! i)
          \<and> pixel_fraction overflow_seed 500 ([500..999] ! i) \<le> 1 / 100"
    if "i < 6" for i
  proof -
    from that have "[500..999::int] ! i = 500 + int i" by (subst nth_upto) auto
    moreover from that have "min_fraction \<le> pixel_fraction overflow_seed 500 (500 + int i)"
      "pixel_fraction overflow_seed 500 (500 + int i) \<le> 1 / 100"
      using overflow_fraction_bounds[of "int i"] by auto
    ultimately show ?thesis by simp
  qed
qed (simp_all add: min_fraction_def)

lemma overflow_cluster:
  "create_charge_sharing_hits overflow_seed (replicate 5 (0, 0, 0)) 0 = Inl IndexError"
proof -
  have f: "min_fraction \<le> pixel_fraction overflow_seed 500 500"
    using overflow_fraction_bounds(1)[of 0] by simp
  have cols: "[500..999::int] = 500 # [501..999]" by (subst upto_rec1) simp_all
  have "column_loop overflow_seed [500..999]
     \<lparr>total_fraction = 0, result_hits = replicate 5 (0, 0, 0), index = 0, n_hits = 0\<rparr>
     = Inl IndexError"
    unfolding cols using f overflow_row_loop
    by (simp add: overflow_seed_fields min_fraction_def)
  then show ?thesis
    by (simp add: create_charge_sharing_hits_def overflow_seed_fields)
qed

text \<open>
  Claim C4. Every write is to stay within the buffer of five records per seed hit, and what
  exceeds the capacity is to be reallocated or truncated. The code has no test of the
  capacity: for one seed hit in the middle of a plane whose pitch is an eighth of
  \<open>sqrt (2 * sigma\<^sup>2)\<close> the scan in the + row direction alone finds six pixels with a
  fraction of at least a thousandth, and the sixth record is written at index 5 of a buffer
  of 5 rows. In the model this write is the error \<open>IndexError\<close>.
\<close>

theorem sixth_record_overflows:
  "add_charge_sharing_hits (rows_array [(- 5 / 32, - 5 / 32)] heap) [(500, 500, 7700)]
      1000 1000 100 (5 / 16) (5 / 16) 300 (4136319552 / 10 ^ 8) = Inl IndexError"
proof -
  have "\<lparr>relative_position = row_view (rows_array [(- 5 / 32, - 5 / 32)] heap) 0,
      column = fst (500, 500, 7700),
      row = fst (snd (500, 500, 7700)), charge = snd (snd (500, 500, 7700)),
      max_column = 1000, max_row = 1000, thickness = 100, pixel_size_x = 5 / 16,
      pixel_size_y = 5 / 16, temperature = 300, bias = 4136319552 / 10 ^ 8,
      digitization_sigma_cc = 1\<rparr> = overflow_seed"
    by (simp add: overflow_seed_def row_view_def rows_array_def)
  then show ?thesis
    using overflow_cluster
    by (simp add: add_charge_sharing_hits_def Let_def del: One_nat_def)
qed

section \<open>The formula of the charge fraction\<close>

lemma sigma_is_spec_sigma:
  "calc_sigma_diffusion (th / 2) T b * cc = spec_sigma th T b cc"
  by (simp add: calc_sigma_diffusion_def spec_sigma_def boltzman_constant_def)

lemma root_of_twice_square: "0 < sigma \<Longrightarrow> sqrt (2 * sigma\<^sup>2) = sqrt 2 * sigma"
  by (simp add: real_sqrt_mult)

lemma fraction_is_four_times_spec:
  assumes "0 < spec_sigma th T b cc"
  shows "calc_charge_fraction (mu1, mu2) (th / 2) ix iy px py T b cc
     = 4 * spec_charge_fraction mu1 mu2 ix iy px py (spec_sigma th T b cc)"
  using assms
  unfolding calc_charge_fraction_def sigma_is_spec_sigma Let_def bivariante_normal_cdf_limits_def
    spec_charge_fraction_def spec_axis_integral_def
  by (simp add: root_of_twice_square)

text \<open>
  Claim C3, amended: for a diffusion sigma greater than 0 the charge fraction of a pixel is
  the product of the bin integrals of the two axes of a Gaussian centred at the offset, where
  the bin integral of an axis is one half (not a quarter) of
  \<open>erf ((upper - mu) / (sqrt 2 * sigma)) - erf ((lower - mu) / (sqrt 2 * sigma))\<close> over the
  extent of the pixel, so that the factor of a quarter stands before the product once; sigma
  is half the thickness times \<open>sqrt (2 * T / bias * k)\<close> with \<open>k = 8.6173324e-5\<close>, times the
  correction factor that is passed to the computation.
\<close>

theorem charge_fraction_is_product_of_axis_integrals:
  assumes "0 < spec_sigma th T b cc"
  shows "calc_charge_fraction (mu1, mu2) (th / 2) ix iy px py T b cc
     = gauss_axis_integral (px * (real_of_int ix - 1 / 2)) (px * (real_of_int ix + 1 / 2))
         mu1 (spec_sigma th T b cc)
       * gauss_axis_integral (py * (real_of_int iy - 1 / 2)) (py * (real_of_int iy + 1 / 2))
         mu2 (spec_sigma th T b cc)"
  using assms
  unfolding calc_charge_fraction_def sigma_is_spec_sigma Let_def bivariante_normal_cdf_limits_def
    gauss_axis_integral_def
  by (simp add: root_of_twice_square)

lemma overflow_spec_sigma: "spec_sigma 100 300 (4136319552 / 10 ^ 8) 1 = 50 * sqrt (1 / 800)"
  by (simp add: spec_sigma_def)

lemma overflow_spec_sigma_pos: "0 < spec_sigma 100 300 (4136319552 / 10 ^ 8) 1"
  unfolding overflow_spec_sigma by simp

lemma seed_pixel_fraction:
  "pixel_fraction overflow_seed 500 500
    = calc_charge_fraction (- 5 / 32, - 5 / 32) (100 / 2) 0 0 (5 / 16) (5 / 16) 300
        (4136319552 / 10 ^ 8) 1"
  by (simp add: pixel_fraction_def overflow_seed_def)

text \<open>
  Claim C3, as stated, fails: with a quarter for each axis the product is a quarter of the
  fraction that the code computes, and the two differ wherever the fraction is not 0, as for
  the seed pixel of the hit above.
\<close>

theorem fraction_differs_from_product_of_quarters:
  "0 < spec_sigma 100 300 (4136319552 / 10 ^ 8) 1
   \<and> calc_charge_fraction (- 5 / 32, - 5 / 32) (100 / 2) 0 0 (5 / 16) (5 / 16) 300
        (4136319552 / 10 ^ 8) 1
      \<noteq> spec_charge_fraction (- 5 / 32) (- 5 / 32) 0 0 (5 / 16) (5 / 16)
            (spec_sigma 100 300 (4136319552 / 10 ^ 8) 1)"
proof -
  let ?code = "calc_charge_fraction (- 5 / 32, - 5 / 32) (100 / 2) 0 0 (5 / 16) (5 / 16) 300
        (4136319552 / 10 ^ 8) 1"
  let ?spec = "spec_charge_fraction (- 5 / 32) (- 5 / 32) 0 0 (5 / 16) (5 / 16)
                (spec_sigma 100 300 (4136319552 / 10 ^ 8) 1)"
  have "min_fraction \<le> pixel_fraction overflow_seed 500 500"
    using overflow_fraction_bounds(1)[of 0] by simp
  then have pos: "0 < ?code"
    by (simp add: seed_pixel_fraction min_fraction_def)
  have "?code = 4 * ?spec"
    using fraction_is_four_times_spec[OF overflow_spec_sigma_pos, of "- 5 / 32" "- 5 / 32" 0 0 "5 / 16" "5 / 16"]
    by simp
  with pos have "?code \<noteq> ?spec" by simp
  with overflow_spec_sigma_pos show ?thesis by simp
qed

text \<open>The amended claim C3 at the seed pixel of the hit above.\<close>

theorem charge_fraction_is_product_of_axis_integrals_witness:
  "0 < spec_sigma 100 300 (4136319552 / 10 ^ 8) 1
   \<and> calc_charge_fraction (- 5 / 32, - 5 / 32) (100 / 2) 0 0 (5 / 16) (5 / 16) 300
        (4136319552 / 10 ^ 8) 1
      = gauss_axis_integral (5 / 16 * (real_of_int 0 - 1 / 2)) (5 / 16 * (real_of_int 0 + 1 / 2))
          (- 5 / 32) (spec_sigma 100 300 (4136319552 / 10 ^ 8) 1)
        * gauss_axis_integral (5 / 16 * (real_of_int 0 - 1 / 2)) (5 / 16 * (real_of_int 0 + 1 / 2))
          (- 5 / 32) (spec_sigma 100 300 (4136319552 / 10 ^ 8) 1)"
proof -
  from charge_fraction_is_product_of_axis_integrals[OF overflow_spec_sigma_pos,
      of "- 5 / 32" "- 5 / 32" 0 0 "5 / 16" "5 / 16"]
    overflow_spec_sigma_pos
  show ?thesis by (intro conjI)
qed

text \<open>
  The correction factor in the settings has no part in the digitization: the loop over the
  seed hits passes the constant 1.
\<close>

lemma configured_correction_factor_unused:
  "digitize_dut (S\<lparr>digitization_sigma_cc := c\<rparr>) heap dut_index event_number hits g
     = digitize_dut S heap dut_index event_number hits g"
proof -
  have "share_charge (S\<lparr>digitization_sigma_cc := c\<rparr>) = share_charge S"
    by (intro ext) (simp add: share_charge_def Let_def split: sum.splits option.splits)
  moreover have "detect (S\<lparr>digitization_sigma_cc := c\<rparr>) = detect S"
    by (intro ext) (simp add: detect_def Let_def split: sum.splits prod.splits)
  moreover have "get_charge_deposited (S\<lparr>digitization_sigma_cc := c\<rparr>) = get_charge_deposited S"
    by (intro ext) (simp add: get_charge_deposited_def Let_def split: sum.splits)
  ultimately show ?thesis
    by (simp add: digitize_dut_def Let_def split: sum.splits prod.splits)
qed

end
